theory Spec2Isabelle
  imports Complex_Main
begin

section \<open>Token-bucket rate limiter (core/rate\_limiter.py)\<close>

text \<open>
  Python floats are idealised as real numbers throughout: rounding is outside the model.
  Overflow, infinities and NaN appear only where the control flow of the code depends on
  them (the back-off delay of a run, the numeral conversions of the CSV pipeline). The
  reading of \<^verbatim>\<open>time.time()\<close> taken by a call is
  an explicit argument \<open>now\<close>, so nothing is assumed about the clock in the
  definitions. The mutex of the class makes each call atomic; calls are therefore
  modelled one after the other.
\<close>

record rate_limiter =
  rate_limit :: int
  tokens :: real
  last_update :: real

text \<open>\<^verbatim>\<open>RateLimiter.__init__(rate_limit)\<close>, constructed at clock reading \<open>now\<close>.\<close>

definition init_limiter :: "int \<Rightarrow> real \<Rightarrow> rate_limiter" where
  "init_limiter rl now = \<lparr>rate_limit = rl, tokens = of_int rl, last_update = now\<rparr>"

text \<open>\<^verbatim>\<open>RateLimiter.acquire(tokens=n)\<close> at clock reading \<open>now\<close>.\<close>

definition acquire :: "real \<Rightarrow> int \<Rightarrow> rate_limiter \<Rightarrow> bool \<times> rate_limiter" where
  "acquire now n l =
     (let time_passed = now - last_update l;
          l1 = l\<lparr>tokens := min (of_int (rate_limit l))
                               (tokens l + (time_passed * of_int (rate_limit l) / 60))\<rparr>;
          l2 = l1\<lparr>last_update := now\<rparr>
      in if tokens l2 \<ge> of_int n
         then (True, l2\<lparr>tokens := tokens l2 - of_int n\<rparr>)
         else (False, l2))"

text \<open>A sequence of calls \<open>(now, n)\<close>, each call's verdict dropped.\<close>

fun acquires :: "(real \<times> int) list \<Rightarrow> rate_limiter \<Rightarrow> rate_limiter" where
  "acquires [] l = l"
| "acquires ((now, n) # cs) l = acquires cs (snd (acquire now n l))"

text \<open>The refill as the specification words it: elapsed time times capacity over 60,
  added to the bucket and capped at the capacity.\<close>

definition refilled :: "real \<Rightarrow> rate_limiter \<Rightarrow> real" where
  "refilled now l =
     min (of_int (rate_limit l))
         (tokens l + (now - last_update l) * of_int (rate_limit l) / 60)"

section \<open>Raw items and Python helpers\<close>

text \<open>
  A raw item is a \<^verbatim>\<open>Dict[str, Any]\<close> decoded from JSON or read by \<^verbatim>\<open>csv.DictReader\<close>.
  Strings are lists of 8-bit characters; \<^verbatim>\<open>str.upper\<close> is modelled on the ASCII
  letters and leaves every other character alone. A float value is \<open>JFloat x\<close> when it
  is a finite number \<open>x\<close>, and \<open>JNonFinite\<close> when it is an infinity or NaN.
\<close>

datatype nonfinite = PosInf | NegInf | NaN

datatype json =
    JNull
  | JBool bool
  | JInt int
  | JFloat real
  | JNonFinite nonfinite
  | JStr string
  | JList "json list"
  | JObj "(string \<times> json) list"

type_synonym raw_item = "(string \<times> json) list"

type_synonym datetime = real

text \<open>An exception is represented by its message, \<^verbatim>\<open>str(e)\<close>.\<close>

type_synonym exn = string

text \<open>\<^verbatim>\<open>item.get(key, default)\<close>\<close>

definition dict_get :: "raw_item \<Rightarrow> string \<Rightarrow> json \<Rightarrow> json" where
  "dict_get item k d = (case map_of item k of Some v \<Rightarrow> v | None \<Rightarrow> d)"

definition upper_char :: "char \<Rightarrow> char" where
  "upper_char c =
     (let n = (of_char c :: nat) in if 97 \<le> n \<and> n \<le> 122 then char_of (n - 32) else c)"

definition upper :: "string \<Rightarrow> string" where
  "upper s = map upper_char s"

section \<open>Validation schema (schemas/coin.py)\<close>

text \<open>
  The type coercion of the validation library is not code of this repository. It is
  taken as a parameter: for each target type, the function that turns an input value into
  a value of that type or rejects it (\<open>None\<close>).
\<close>

record coercion =
  as_str :: "json \<Rightarrow> string option"
  as_float :: "json \<Rightarrow> real option"
  as_int :: "json \<Rightarrow> int option"

text \<open>A coercion that accepts exactly the values already of the target type (and an
  integer where a float is wanted); used for the concrete examples, none of which has a
  float that is not finite.\<close>

definition exact_types :: coercion where
  "exact_types =
     \<lparr>as_str = (\<lambda>v. case v of JStr s \<Rightarrow> Some s | _ \<Rightarrow> None),
      as_float = (\<lambda>v. case v of JFloat x \<Rightarrow> Some x | JInt i \<Rightarrow> Some (of_int i) | _ \<Rightarrow> None),
      as_int = (\<lambda>v. case v of JInt i \<Rightarrow> Some i | _ \<Rightarrow> None)\<rparr>"

text \<open>The keyword arguments handed to \<^verbatim>\<open>CoinCreate(**coin_data)\<close>.\<close>

record coin_data =
  cd_coin_id :: json
  cd_symbol :: json
  cd_name :: json
  cd_current_price :: json
  cd_market_cap :: json
  cd_volume_24h :: json
  cd_price_change_24h :: json
  cd_rank :: json
  cd_source :: json
  cd_last_updated :: "datetime option"

text \<open>The validated model, as \<^verbatim>\<open>model_dump()\<close> returns it.\<close>

record coin_values =
  coin_id :: string
  symbol :: string
  name :: string
  current_price :: "real option"
  market_cap :: "real option"
  volume_24h :: "real option"
  price_change_24h :: "real option"
  rank :: "int option"
  source :: string
  last_updated :: "datetime option"

text \<open>\<^verbatim>\<open>str = Field(..., min_length=1)\<close>\<close>

definition required_str :: "coercion \<Rightarrow> json \<Rightarrow> string option" where
  "required_str P v =
     (case as_str P v of None \<Rightarrow> None | Some s \<Rightarrow> if 1 \<le> length s then Some s else None)"

text \<open>\<^verbatim>\<open>Optional[T] = Field(None)\<close>: null is accepted as it is, anything else is
  coerced to \<open>T\<close>. The outer \<open>None\<close> is a validation error.\<close>

definition optional_field :: "(json \<Rightarrow> 'a option) \<Rightarrow> json \<Rightarrow> 'a option option" where
  "optional_field co v = (case v of JNull \<Rightarrow> Some None | _ \<Rightarrow> map_option Some (co v))"

definition symbol_uppercase :: "string \<Rightarrow> string" where
  "symbol_uppercase v = (if v \<noteq> [] then upper v else v)"

definition validate_numeric :: "real option \<Rightarrow> real option" where
  "validate_numeric v = (if v \<noteq> None \<and> the v < 0 then None else v)"

definition CoinCreate :: "coercion \<Rightarrow> coin_data \<Rightarrow> coin_values option" where
  "CoinCreate P d =
     (case required_str P (cd_coin_id d) of None \<Rightarrow> None | Some cid \<Rightarrow>
      case required_str P (cd_symbol d) of None \<Rightarrow> None | Some sy \<Rightarrow>
      case required_str P (cd_name d) of None \<Rightarrow> None | Some nm \<Rightarrow>
      case optional_field (as_float P) (cd_current_price d) of None \<Rightarrow> None | Some price \<Rightarrow>
      case optional_field (as_float P) (cd_market_cap d) of None \<Rightarrow> None | Some cap \<Rightarrow>
      case optional_field (as_float P) (cd_volume_24h d) of None \<Rightarrow> None | Some vol \<Rightarrow>
      case optional_field (as_float P) (cd_price_change_24h d) of None \<Rightarrow> None | Some chg \<Rightarrow>
      case optional_field (as_int P) (cd_rank d) of None \<Rightarrow> None | Some rk \<Rightarrow>
      case as_str P (cd_source d) of None \<Rightarrow> None | Some src \<Rightarrow>
        Some \<lparr>coin_id = cid,
              symbol = symbol_uppercase sy,
              name = nm,
              current_price = validate_numeric price,
              market_cap = validate_numeric cap,
              volume_24h = validate_numeric vol,
              price_change_24h = validate_numeric chg,
              rank = rk,
              source = src,
              last_updated = cd_last_updated d\<rparr>)"

section \<open>Pipelines: transform and load\_raw (ingestion/coingecko.py, ingestion/csv\_source.py)\<close>

text \<open>
  The body of the \<^verbatim>\<open>for\<close> loop of every \<^verbatim>\<open>transform\<close> is one \<^verbatim>\<open>try\<close> block whose
  handler logs and continues. The body is modelled as a function from the item to the
  record appended to \<^verbatim>\<open>normalized\<close>, with \<open>None\<close> when the body raised and the item
  was skipped. The clock reading \<open>now\<close> stands for \<^verbatim>\<open>datetime.utcnow()\<close>.
\<close>

fun transform_loop ::
  "(raw_item \<Rightarrow> coin_values option) \<Rightarrow> raw_item list \<Rightarrow> coin_values list \<Rightarrow> coin_values list"
where
  "transform_loop body [] normalized = normalized"
| "transform_loop body (item # rest) normalized =
     (case body item of
        Some validated \<Rightarrow> transform_loop body rest (normalized @ [validated])
      | None \<Rightarrow> transform_loop body rest normalized)"

text \<open>CoinGecko: \<^verbatim>\<open>item.get('symbol', '').upper()\<close> raises unless the value is a string.\<close>

definition coingecko_item :: "coercion \<Rightarrow> datetime \<Rightarrow> raw_item \<Rightarrow> coin_values option" where
  "coingecko_item P now item =
     (case dict_get item ''symbol'' (JStr []) of
        JStr s \<Rightarrow>
          CoinCreate P
            \<lparr>cd_coin_id = dict_get item ''id'' (JStr []),
             cd_symbol = JStr (upper s),
             cd_name = dict_get item ''name'' (JStr []),
             cd_current_price = dict_get item ''current_price'' JNull,
             cd_market_cap = dict_get item ''market_cap'' JNull,
             cd_volume_24h = dict_get item ''total_volume'' JNull,
             cd_price_change_24h = dict_get item ''price_change_percentage_24h'' JNull,
             cd_rank = dict_get item ''market_cap_rank'' JNull,
             cd_source = JStr ''coingecko'',
             cd_last_updated = Some now\<rparr>
      | _ \<Rightarrow> None)"

definition coingecko_transform :: "coercion \<Rightarrow> datetime \<Rightarrow> raw_item list \<Rightarrow> coin_values list" where
  "coingecko_transform P now raw_data = transform_loop (coingecko_item P now) raw_data []"

text \<open>
  CSV. Python's \<^verbatim>\<open>float(s)\<close> on a string and \<^verbatim>\<open>str(v)\<close> on a value that is neither a
  string nor \<^verbatim>\<open>None\<close> are library functions, taken as parameters; \<open>float_of_str\<close>
  returns \<open>None\<close> where \<^verbatim>\<open>float\<close> raises \<^verbatim>\<open>ValueError\<close>, and a float that is a
  finite number, an infinity or NaN otherwise.
\<close>

datatype pyfloat = Finite real | NonFinite nonfinite

record pylib =
  float_of_str :: "string \<Rightarrow> pyfloat option"
  str_of :: "json \<Rightarrow> string"

definition py_str :: "pylib \<Rightarrow> json \<Rightarrow> string" where
  "py_str L v = (case v of JStr s \<Rightarrow> s | JNull \<Rightarrow> ''None'' | _ \<Rightarrow> str_of L v)"

text \<open>\<^verbatim>\<open>.replace(',', '').replace('$', '')\<close>\<close>

definition strip_money :: "string \<Rightarrow> string" where
  "strip_money s = filter (\<lambda>c. c \<noteq> CHR ''$'') (filter (\<lambda>c. c \<noteq> CHR '','') s)"

definition parse_float :: "pylib \<Rightarrow> json \<Rightarrow> pyfloat option" where
  "parse_float L v =
     (if v = JNull \<or> v = JStr [] then None
      else float_of_str L (strip_money (py_str L v)))"

text \<open>\<^verbatim>\<open>int(x)\<close> on a finite float truncates towards zero.\<close>

definition py_int :: "real \<Rightarrow> int" where
  "py_int x = (if 0 \<le> x then \<lfloor>x\<rfloor> else \<lceil>x\<rceil>)"

text \<open>
  \<^verbatim>\<open>_parse_int\<close> catches \<^verbatim>\<open>ValueError\<close> and \<^verbatim>\<open>AttributeError\<close> only. \<^verbatim>\<open>int\<close> raises
  \<^verbatim>\<open>ValueError\<close> on NaN, which is caught, and \<^verbatim>\<open>OverflowError\<close> on an infinity, which
  leaves \<^verbatim>\<open>_parse_int\<close>.
\<close>

definition parse_int :: "pylib \<Rightarrow> json \<Rightarrow> exn + int option" where
  "parse_int L v =
     (if v = JNull \<or> v = JStr [] then Inr None
      else case float_of_str L (py_str L v) of
        None \<Rightarrow> Inr None
      | Some (Finite x) \<Rightarrow> Inr (Some (py_int x))
      | Some (NonFinite NaN) \<Rightarrow> Inr None
      | Some (NonFinite _) \<Rightarrow> Inl ''cannot convert float infinity to integer'')"

definition json_of_float :: "pyfloat option \<Rightarrow> json" where
  "json_of_float v =
     (case v of None \<Rightarrow> JNull | Some (Finite x) \<Rightarrow> JFloat x | Some (NonFinite n) \<Rightarrow> JNonFinite n)"

definition json_of_int :: "int option \<Rightarrow> json" where
  "json_of_int v = (case v of None \<Rightarrow> JNull | Some i \<Rightarrow> JInt i)"

text \<open>An exception of \<^verbatim>\<open>_parse_int\<close> is raised while the candidate is built, inside the
  \<^verbatim>\<open>try\<close> block of the item.\<close>

definition csv_item :: "coercion \<Rightarrow> pylib \<Rightarrow> datetime \<Rightarrow> raw_item \<Rightarrow> coin_values option" where
  "csv_item P L now item =
     (case parse_int L (dict_get item ''rank'' JNull) of
        Inl e \<Rightarrow> None
      | Inr parsed_rank \<Rightarrow>
          CoinCreate P
            \<lparr>cd_coin_id = dict_get item ''coin_id'' (dict_get item ''id'' (JStr [])),
             cd_symbol = JStr (upper (py_str L (dict_get item ''symbol'' (JStr [])))),
             cd_name = dict_get item ''name'' (JStr []),
             cd_current_price =
               json_of_float
                 (parse_float L (dict_get item ''price'' (dict_get item ''current_price'' JNull))),
             cd_market_cap = json_of_float (parse_float L (dict_get item ''market_cap'' JNull)),
             cd_volume_24h =
               json_of_float
                 (parse_float L (dict_get item ''volume'' (dict_get item ''volume_24h'' JNull))),
             cd_price_change_24h =
               json_of_float
                 (parse_float L
                    (dict_get item ''change_24h'' (dict_get item ''price_change_24h'' JNull))),
             cd_rank = json_of_int parsed_rank,
             cd_source = JStr ''csv'',
             cd_last_updated = Some now\<rparr>)"

definition csv_transform ::
  "coercion \<Rightarrow> pylib \<Rightarrow> datetime \<Rightarrow> raw_item list \<Rightarrow> coin_values list" where
  "csv_transform P L now raw_data = transform_loop (csv_item P L now) raw_data []"

text \<open>A library instance for the concrete examples: unsigned decimal numerals and
  \<^verbatim>\<open>inf\<close> only.\<close>

definition plain_decimal :: pylib where
  "plain_decimal =
     \<lparr>float_of_str =
        (\<lambda>s. if s = ''inf'' then Some (NonFinite PosInf)
             else if s \<noteq> [] \<and> list_all (\<lambda>c. 48 \<le> (of_char c :: nat) \<and> (of_char c :: nat) \<le> 57) s
             then Some (Finite (of_nat (foldl (\<lambda>a c. 10 * a + (of_char c - 48)) 0 s)))
             else None),
      str_of = (\<lambda>v. [])\<rparr>"

section \<open>Tables (core/models.py)\<close>

text \<open>
  A table is the list of its rows in insertion order. The surrogate \<^verbatim>\<open>id\<close> columns and
  the never-written \<^verbatim>\<open>run_metadata\<close> columns are left out; column length limits and
  nullability are not checked. A failure of the persistence layer, whatever its cause,
  is an injected fault (see the runner below).
\<close>

record coin = coin_values +
  created_at :: datetime
  updated_at :: datetime

record raw_record =
  raw_coin_id :: json
  raw_data :: raw_item
  ingested_at :: datetime

record etl_checkpoint =
  cp_source :: string
  last_run_at :: "datetime option"
  last_success_at :: "datetime option"
  last_failure_at :: "datetime option"
  cp_status :: string
  cp_records_processed :: int
  cp_error_message :: "string option"
  cp_created_at :: datetime
  cp_updated_at :: datetime

record etl_run =
  run_id :: string
  run_source :: string
  run_status :: string
  run_records_processed :: int
  duration_seconds :: real
  run_started_at :: datetime
  completed_at :: datetime
  run_error_message :: "string option"

record database =
  coins :: "coin list"
  etl_checkpoints :: "etl_checkpoint list"
  etl_runs :: "etl_run list"
  raw_coingecko :: "raw_record list"
  raw_csv :: "raw_record list"

fun coingecko_load_raw :: "datetime \<Rightarrow> raw_item list \<Rightarrow> database \<Rightarrow> database" where
  "coingecko_load_raw now [] db = db"
| "coingecko_load_raw now (item # rest) db =
     coingecko_load_raw now rest
       (db\<lparr>raw_coingecko := raw_coingecko db @
            [\<lparr>raw_coin_id = dict_get item ''id'' (JStr ''unknown''),
              raw_data = item, ingested_at = now\<rparr>]\<rparr>)"

fun csv_load_raw :: "datetime \<Rightarrow> raw_item list \<Rightarrow> database \<Rightarrow> database" where
  "csv_load_raw now [] db = db"
| "csv_load_raw now (item # rest) db =
     csv_load_raw now rest
       (db\<lparr>raw_csv := raw_csv db @
            [\<lparr>raw_coin_id = dict_get item ''coin_id'' (dict_get item ''id'' (JStr ''unknown'')),
              raw_data = item, ingested_at = now\<rparr>]\<rparr>)"

section \<open>The base pipeline (ingestion/base.py)\<close>

text \<open>The fields that \<^verbatim>\<open>BaseETL.__init__\<close> sets on \<^verbatim>\<open>self\<close>.\<close>

record etl =
  source_name :: string
  self_run_id :: string
  started_at :: datetime
  records_processed :: int

subsection \<open>load\_normalized: insert with on-conflict update\<close>

text \<open>
  The statement is \<^verbatim>\<open>INSERT ... ON CONFLICT (coin_id, source) DO UPDATE SET ...\<close>.
  A proposed row whose key is already in the table updates that row with the listed
  columns; any other proposed row is inserted with the column defaults
  \<^verbatim>\<open>created_at = updated_at = utcnow()\<close>. The database refuses a statement that proposes
  the same key twice. \<open>fault\<close> is the exception, if any, that \<^verbatim>\<open>db.execute\<close> raises for
  a reason of the persistence layer.
\<close>

definition conflict_key :: "'a coin_values_scheme \<Rightarrow> string \<times> string" where
  "conflict_key v = (coin_id v, source v)"

definition insert_row :: "datetime \<Rightarrow> coin_values \<Rightarrow> coin" where
  "insert_row now v =
     \<lparr>coin_id = coin_id v, symbol = symbol v, name = name v,
      current_price = current_price v, market_cap = market_cap v,
      volume_24h = volume_24h v, price_change_24h = price_change_24h v,
      rank = rank v, source = source v, last_updated = last_updated v,
      created_at = now, updated_at = now\<rparr>"

definition conflict_update :: "datetime \<Rightarrow> coin_values \<Rightarrow> coin \<Rightarrow> coin" where
  "conflict_update now excluded row =
     row\<lparr>name := name excluded,
         symbol := symbol excluded,
         current_price := current_price excluded,
         market_cap := market_cap excluded,
         volume_24h := volume_24h excluded,
         price_change_24h := price_change_24h excluded,
         rank := rank excluded,
         last_updated := last_updated excluded,
         updated_at := now\<rparr>"

fun upsert :: "datetime \<Rightarrow> coin_values \<Rightarrow> coin list \<Rightarrow> coin list" where
  "upsert now v [] = [insert_row now v]"
| "upsert now v (row # rows) =
     (if conflict_key row = conflict_key v then conflict_update now v row # rows
      else row # upsert now v rows)"

fun upsert_all :: "datetime \<Rightarrow> coin_values list \<Rightarrow> coin list \<Rightarrow> coin list" where
  "upsert_all now [] rows = rows"
| "upsert_all now (v # vs) rows = upsert_all now vs (upsert now v rows)"

definition load_normalized ::
  "exn option \<Rightarrow> datetime \<Rightarrow> coin_values list \<Rightarrow> etl \<times> database \<Rightarrow> exn + etl \<times> database" where
  "load_normalized fault now normalized_data sd =
     (case sd of (self, db) \<Rightarrow>
        if normalized_data = [] then Inr (self, db)
        else case fault of
          Some e \<Rightarrow> Inl e
        | None \<Rightarrow>
            if \<not> distinct (map conflict_key normalized_data)
            then Inl ''ON CONFLICT DO UPDATE command cannot affect row a second time''
            else Inr (self\<lparr>records_processed :=
                             records_processed self + int (length normalized_data)\<rparr>,
                      db\<lparr>coins := upsert_all now normalized_data (coins db)\<rparr>))"

subsection \<open>update\_checkpoint and create\_run\_record\<close>

fun update_first :: "('a \<Rightarrow> bool) \<Rightarrow> ('a \<Rightarrow> 'a) \<Rightarrow> 'a list \<Rightarrow> 'a list" where
  "update_first p f [] = []"
| "update_first p f (x # xs) = (if p x then f x # xs else x # update_first p f xs)"

text \<open>The assignments to the row that \<^verbatim>\<open>.first()\<close> returned.\<close>

definition touch_checkpoint ::
  "datetime \<Rightarrow> string \<Rightarrow> string option \<Rightarrow> etl \<Rightarrow> etl_checkpoint \<Rightarrow> etl_checkpoint" where
  "touch_checkpoint now status error_message self checkpoint =
     (let c = checkpoint\<lparr>last_run_at := Some now,
                         cp_status := status,
                         cp_records_processed := records_processed self,
                         cp_updated_at := now\<rparr>
      in if status = ''success''
         then c\<lparr>last_success_at := Some now, cp_error_message := None\<rparr>
         else if status = ''failure''
         then c\<lparr>last_failure_at := Some now, cp_error_message := error_message\<rparr>
         else c)"

definition new_checkpoint ::
  "datetime \<Rightarrow> string \<Rightarrow> string option \<Rightarrow> etl \<Rightarrow> etl_checkpoint" where
  "new_checkpoint now status error_message self =
     \<lparr>cp_source = source_name self,
      last_run_at = Some now,
      last_success_at = (if status = ''success'' then Some now else None),
      last_failure_at = (if status = ''failure'' then Some now else None),
      cp_status = status,
      cp_records_processed = records_processed self,
      cp_error_message = error_message,
      cp_created_at = now,
      cp_updated_at = now\<rparr>"

definition update_checkpoint ::
  "exn option \<Rightarrow> datetime \<Rightarrow> string \<Rightarrow> string option \<Rightarrow> etl \<Rightarrow> database \<Rightarrow> exn + database" where
  "update_checkpoint fault now status error_message self db =
     (case fault of
        Some e \<Rightarrow> Inl e
      | None \<Rightarrow>
          (case find (\<lambda>c. cp_source c = source_name self) (etl_checkpoints db) of
             Some checkpoint \<Rightarrow>
               Inr (db\<lparr>etl_checkpoints :=
                      update_first (\<lambda>c. cp_source c = source_name self)
                        (touch_checkpoint now status error_message self) (etl_checkpoints db)\<rparr>)
           | None \<Rightarrow>
               Inr (db\<lparr>etl_checkpoints :=
                      etl_checkpoints db @ [new_checkpoint now status error_message self]\<rparr>)))"

text \<open>\<^verbatim>\<open>create_run_record\<close> hands the new row to \<^verbatim>\<open>db.add\<close>, which only marks it as
  pending: the unique constraint on the run id is checked when the transaction commits
  (see \<open>get_db_context\<close> below).\<close>

definition create_run_record ::
  "exn option \<Rightarrow> datetime \<Rightarrow> string \<Rightarrow> string option \<Rightarrow> etl \<Rightarrow> database \<Rightarrow> exn + database" where
  "create_run_record fault now status error_message self db =
     (case fault of
        Some e \<Rightarrow> Inl e
      | None \<Rightarrow>
          (let completed = now;
               duration = completed - started_at self
           in Inr (db\<lparr>etl_runs := etl_runs db @
                     [\<lparr>run_id = self_run_id self,
                       run_source = source_name self,
                       run_status = status,
                       run_records_processed = records_processed self,
                       duration_seconds = duration,
                       run_started_at = started_at self,
                       completed_at = completed,
                       run_error_message = error_message\<rparr>]\<rparr>)))"

subsection \<open>The environment of a run\<close>

text \<open>
  \<^verbatim>\<open>extract\<close>, \<^verbatim>\<open>transform\<close> and \<^verbatim>\<open>load_raw\<close> are abstract methods: a run is
  parameterised by what each of them does on each attempt (the attempt number is the
  first argument, counted from 0), and each may raise. Every operation on the session may
  raise as well: \<open>db_fault\<close> says, for each transaction and each kind of operation,
  which exception it raises, if any. \<open>utcnow\<close> is the clock reading used within a
  transaction. \<open>sleep_limit\<close> is the longest duration, in seconds, that \<^verbatim>\<open>time.sleep\<close>
  accepts; it depends on the platform and is below \<open>2 ^ 63\<close> nanoseconds.
\<close>

datatype phase = Attempt nat | Finalize

datatype db_op = OpenSession | Execute | Query | Add | Commit | Rollback | Close

record env =
  p_extract :: "nat \<Rightarrow> exn + raw_item list"
  p_load_raw :: "nat \<Rightarrow> raw_item list \<Rightarrow> database \<Rightarrow> exn + database"
  p_transform :: "nat \<Rightarrow> raw_item list \<Rightarrow> exn + coin_values list"
  db_fault :: "phase \<Rightarrow> db_op \<Rightarrow> exn option"
  utcnow :: "phase \<Rightarrow> datetime"
  sleep_limit :: real

text \<open>The messages handed to the logger, in order.\<close>

datatype event =
    Starting nat
  | Extracting
  | Extracted nat
  | LoadingRaw
  | Transforming
  | Transformed nat
  | LoadingNormalized
  | Completed int
  | Failed nat exn
  | Retrying real
  | CheckpointFailed exn
  | UnknownSource string
  | SourceFailed string exn

text \<open>
  \<^verbatim>\<open>backoff_factor ** attempt\<close>, a float raised to an integer power: the result is a
  float, and \<^verbatim>\<open>OverflowError\<close> is raised when it is beyond the largest one.
\<close>

definition float_max :: real where
  "float_max = (2 ^ 53 - 1) * 2 ^ 971"

definition float_pow :: "real \<Rightarrow> nat \<Rightarrow> exn + real" where
  "float_pow x n =
     (if float_max < \<bar>x ^ n\<bar> then Inl ''(34, 'Numerical result out of range')'' else Inr (x ^ n))"

text \<open>\<^verbatim>\<open>time.sleep\<close> raises \<^verbatim>\<open>ValueError\<close> for a negative duration and
  \<^verbatim>\<open>OverflowError\<close> for one that is too long.\<close>

definition time_sleep :: "env \<Rightarrow> real \<Rightarrow> exn + unit" where
  "time_sleep E secs =
     (if secs < 0 then Inl ''sleep length must be non-negative''
      else if sleep_limit E < secs then Inl ''timestamp too large to convert to C _PyTime_t''
      else Inr ())"

subsection \<open>get\_db\_context (core/database.py)\<close>

text \<open>
  The session works on a copy of the committed tables; \<^verbatim>\<open>commit\<close> makes the copy the
  committed state and \<^verbatim>\<open>rollback\<close> drops it. The body returns the session's tables or
  the exception it raised, with \<^verbatim>\<open>self\<close> and the log as it left them.

  The session does not flush before the commit (\<^verbatim>\<open>autoflush=False\<close>), so the rows handed
  to \<^verbatim>\<open>db.add\<close> reach the database at the commit, and it is there that the unique
  constraint on \<^verbatim>\<open>etl_runs.run_id\<close> is checked: the commit raises when a pending run
  record repeats a run id. The constraint on \<^verbatim>\<open>etl_checkpoints.source\<close> is not
  modelled: \<^verbatim>\<open>update_checkpoint\<close> adds a row only when the source has none, and
  transactions are modelled one after the other.
\<close>

definition flush_accepted :: "database \<Rightarrow> database \<Rightarrow> bool" where
  "flush_accepted db session \<longleftrightarrow>
     (let pending = map run_id (drop (length (etl_runs db)) (etl_runs session))
      in distinct pending \<and> list_all (\<lambda>k. k \<notin> set (map run_id (etl_runs db))) pending)"

definition after_error :: "env \<Rightarrow> phase \<Rightarrow> exn \<Rightarrow> exn" where
  "after_error E ph e =
     (case db_fault E ph Rollback of
        Some e2 \<Rightarrow> (case db_fault E ph Close of Some e3 \<Rightarrow> e3 | None \<Rightarrow> e2)
      | None \<Rightarrow> (case db_fault E ph Close of Some e3 \<Rightarrow> e3 | None \<Rightarrow> e))"

definition get_db_context ::
  "env \<Rightarrow> phase \<Rightarrow> (etl \<Rightarrow> event list \<Rightarrow> database \<Rightarrow> (exn + database) \<times> etl \<times> event list)
     \<Rightarrow> etl \<times> database \<times> event list \<Rightarrow> (exn + unit) \<times> etl \<times> database \<times> event list" where
  "get_db_context E ph body st =
     (case st of (self, db, lg) \<Rightarrow>
        (case db_fault E ph OpenSession of
           Some e \<Rightarrow> (Inl e, self, db, lg)
         | None \<Rightarrow>
             (case body self lg db of
                (Inl e, self', lg') \<Rightarrow> (Inl (after_error E ph e), self', db, lg')
              | (Inr session, self', lg') \<Rightarrow>
                  (case db_fault E ph Commit of
                     Some e \<Rightarrow> (Inl (after_error E ph e), self', db, lg')
                   | None \<Rightarrow>
                       (if \<not> flush_accepted db session then
                          (Inl (after_error E ph ''duplicate key value violates unique constraint''),
                           self', db, lg')
                        else
                          (case db_fault E ph Close of
                             Some e \<Rightarrow> (Inl e, self', session, lg')
                           | None \<Rightarrow> (Inr (), self', session, lg')))))))"

subsection \<open>run\<close>

definition etl_body ::
  "env \<Rightarrow> nat \<Rightarrow> etl \<Rightarrow> event list \<Rightarrow> database \<Rightarrow> (exn + database) \<times> etl \<times> event list" where
  "etl_body E k self lg db =
     (let ph = Attempt k; lg1 = lg @ [Extracting] in
      case p_extract E k of
        Inl e \<Rightarrow> (Inl e, self, lg1)
      | Inr raw_items \<Rightarrow>
          (let lg2 = lg1 @ [Extracted (length raw_items), LoadingRaw] in
           case p_load_raw E k raw_items db of
             Inl e \<Rightarrow> (Inl e, self, lg2)
           | Inr db1 \<Rightarrow>
               (let lg3 = lg2 @ [Transforming] in
                case p_transform E k raw_items of
                  Inl e \<Rightarrow> (Inl e, self, lg3)
                | Inr normalized_data \<Rightarrow>
                    (let lg4 = lg3 @ [Transformed (length normalized_data), LoadingNormalized] in
                     case load_normalized (db_fault E ph Execute) (utcnow E ph)
                            normalized_data (self, db1) of
                       Inl e \<Rightarrow> (Inl e, self, lg4)
                     | Inr (self1, db2) \<Rightarrow>
                         (case update_checkpoint (db_fault E ph Query) (utcnow E ph)
                                 ''success'' None self1 db2 of
                            Inl e \<Rightarrow> (Inl e, self1, lg4)
                          | Inr db3 \<Rightarrow>
                              (case create_run_record (db_fault E ph Add) (utcnow E ph)
                                      ''success'' None self1 db3 of
                                 Inl e \<Rightarrow> (Inl e, self1, lg4)
                               | Inr db4 \<Rightarrow>
                                   (Inr db4, self1,
                                    lg4 @ [Completed (records_processed self1)])))))))"

definition finalize_body ::
  "env \<Rightarrow> exn option \<Rightarrow> etl \<Rightarrow> event list \<Rightarrow> database \<Rightarrow> (exn + database) \<times> etl \<times> event list" where
  "finalize_body E last_error self lg db =
     (case update_checkpoint (db_fault E Finalize Query) (utcnow E Finalize)
             ''failure'' last_error self db of
        Inl e \<Rightarrow> (Inl e, self, lg)
      | Inr db1 \<Rightarrow>
          (case create_run_record (db_fault E Finalize Add) (utcnow E Finalize)
                  ''failure'' last_error self db1 of
             Inl e \<Rightarrow> (Inl e, self, lg)
           | Inr db2 \<Rightarrow> (Inr db2, self, lg)))"

text \<open>How the \<^verbatim>\<open>while\<close> loop ends: by \<^verbatim>\<open>return True\<close>, or by its condition failing
  with the last error recorded.\<close>

datatype loop_exit = Succeeded | Exhausted "exn option"

function run_loop ::
  "env \<Rightarrow> int \<Rightarrow> real \<Rightarrow> nat \<Rightarrow> exn option \<Rightarrow> etl \<times> database \<times> event list
     \<Rightarrow> (exn + loop_exit) \<times> etl \<times> database \<times> event list" where
  "run_loop E max_retries backoff_factor attempt last_error st =
     (if int attempt < max_retries then
        (case st of (self, db, lg) \<Rightarrow>
           (case get_db_context E (Attempt attempt) (etl_body E attempt)
                   (self, db, lg @ [Starting (attempt + 1)]) of
              (Inr u, st') \<Rightarrow> (Inr Succeeded, st')
            | (Inl e, self', db', lg') \<Rightarrow>
                (if int (attempt + 1) < max_retries then
                   (case float_pow backoff_factor (attempt + 1) of
                      Inl e' \<Rightarrow> (Inl e', self', db', lg' @ [Failed (attempt + 1) e])
                    | Inr wait_time \<Rightarrow>
                        (case time_sleep E wait_time of
                           Inl e' \<Rightarrow>
                             (Inl e', self', db',
                              lg' @ [Failed (attempt + 1) e, Retrying wait_time])
                         | Inr u \<Rightarrow>
                             run_loop E max_retries backoff_factor (attempt + 1) (Some e)
                               (self', db', lg' @ [Failed (attempt + 1) e, Retrying wait_time])))
                 else
                   run_loop E max_retries backoff_factor (attempt + 1) (Some e)
                     (self', db', lg' @ [Failed (attempt + 1) e]))))
      else (Inr (Exhausted last_error), st))"
  by pat_completeness auto
termination
  by (relation "measure (\<lambda>(E, max_retries, backoff_factor, attempt, last_error, st).
                    nat (max_retries - int attempt))") auto

definition run ::
  "env \<Rightarrow> int \<Rightarrow> real \<Rightarrow> etl \<times> database \<times> event list
     \<Rightarrow> (exn + bool) \<times> etl \<times> database \<times> event list" where
  "run E max_retries backoff_factor st =
     (case run_loop E max_retries backoff_factor 0 None st of
        (Inl e, st') \<Rightarrow> (Inl e, st')
      | (Inr Succeeded, st') \<Rightarrow> (Inr True, st')
      | (Inr (Exhausted last_error), st') \<Rightarrow>
          (case get_db_context E Finalize (finalize_body E last_error) st' of
             (Inr u, st'') \<Rightarrow> (Inr False, st'')
           | (Inl e, self', db', lg') \<Rightarrow> (Inr False, self', db', lg' @ [CheckpointFailed e])))"

section \<open>Orchestration (services/etl\_service.py)\<close>

text \<open>
  The registry maps a source name to a pipeline class. A class is represented by what
  calling it yields: the exception its constructor raises, or the constructed instance,
  that is its \<^verbatim>\<open>self\<close> fields and the behaviour of its methods. \<^verbatim>\<open>run_single_source\<close>
  calls \<^verbatim>\<open>run()\<close> with the defaults, 3 retries and back-off factor 2.

  In the parallel branch the runs of the sources take place in worker threads. They are
  modelled as taking place one after the other, in an order \<open>schedule\<close> that is a
  parameter; the handler around \<^verbatim>\<open>future.result()\<close> turns an exception into
  \<^verbatim>\<open>False\<close>. The sequential branch has no handler.
\<close>

record job =
  job_self :: etl
  job_env :: env

type_synonym registry = "(string \<times> (exn + job)) list"

definition run_single_source ::
  "registry \<Rightarrow> string \<Rightarrow> database \<times> event list \<Rightarrow> (exn + bool) \<times> database \<times> event list" where
  "run_single_source etl_sources sname w =
     (case w of (db, lg) \<Rightarrow>
        (case map_of etl_sources sname of
           None \<Rightarrow> (Inr False, db, lg @ [UnknownSource sname])
         | Some (Inl e) \<Rightarrow> (Inl e, db, lg)
         | Some (Inr etl) \<Rightarrow>
             (case run (job_env etl) 3 2 (job_self etl, db, lg) of
                (r, self', db', lg') \<Rightarrow> (r, db', lg'))))"

fun run_parallel ::
  "registry \<Rightarrow> string list \<Rightarrow> (string \<rightharpoonup> bool) \<Rightarrow> database \<times> event list
     \<Rightarrow> (string \<rightharpoonup> bool) \<times> database \<times> event list" where
  "run_parallel etl_sources [] results w = (results, w)"
| "run_parallel etl_sources (src # rest) results w =
     (case run_single_source etl_sources src w of
        (Inr b, w') \<Rightarrow> run_parallel etl_sources rest (results(src \<mapsto> b)) w'
      | (Inl e, db, lg) \<Rightarrow>
          run_parallel etl_sources rest (results(src \<mapsto> False))
            (db, lg @ [SourceFailed src e]))"

fun run_sequential ::
  "registry \<Rightarrow> string list \<Rightarrow> (string \<rightharpoonup> bool) \<Rightarrow> database \<times> event list
     \<Rightarrow> (exn + (string \<rightharpoonup> bool)) \<times> database \<times> event list" where
  "run_sequential etl_sources [] results w = (Inr results, w)"
| "run_sequential etl_sources (src # rest) results w =
     (case run_single_source etl_sources src w of
        (Inr b, w') \<Rightarrow> run_sequential etl_sources rest (results(src \<mapsto> b)) w'
      | (Inl e, w') \<Rightarrow> (Inl e, w'))"

definition run_all_sources ::
  "registry \<Rightarrow> bool \<Rightarrow> string list \<Rightarrow> database \<times> event list
     \<Rightarrow> (exn + (string \<rightharpoonup> bool)) \<times> database \<times> event list" where
  "run_all_sources etl_sources parallel schedule w =
     (if parallel then
        (case run_parallel etl_sources schedule Map.empty w of
           (results, w') \<Rightarrow> (Inr results, w'))
      else run_sequential etl_sources (map fst etl_sources) Map.empty w)"

section \<open>Auxiliary notions for the proofs\<close>

text \<open>The invariant of the bucket.\<close>

definition bucket_ok :: "rate_limiter \<Rightarrow> bool" where
  "bucket_ok l \<longleftrightarrow> 0 \<le> tokens l \<and> tokens l \<le> of_int (rate_limit l)"

text \<open>
  The transform as the specification words it: the records of the items that pass
  validation, each dropped or kept on its own. An item passes when its required fields
  coerce to non-empty strings and each optional field is null or coerces to its type; a
  negative value of one of the four float fields becomes null. In the CSV pipeline the
  numbers are first parsed from the cells, and an item whose rank parses to an infinity
  is dropped as well.
\<close>

definition str_accepted :: "coercion \<Rightarrow> json \<Rightarrow> bool" where
  "str_accepted P v \<longleftrightarrow> (case as_str P v of Some s \<Rightarrow> s \<noteq> [] | None \<Rightarrow> False)"

definition opt_accepted :: "(json \<Rightarrow> 'a option) \<Rightarrow> json \<Rightarrow> bool" where
  "opt_accepted co v \<longleftrightarrow> (case v of JNull \<Rightarrow> True | _ \<Rightarrow> co v \<noteq> None)"

definition opt_value :: "(json \<Rightarrow> 'a option) \<Rightarrow> json \<Rightarrow> 'a option" where
  "opt_value co v = (case v of JNull \<Rightarrow> None | _ \<Rightarrow> co v)"

definition clamped :: "real option \<Rightarrow> real option" where
  "clamped v = (case v of None \<Rightarrow> None | Some x \<Rightarrow> if x < 0 then None else Some x)"

definition coingecko_symbol :: "raw_item \<Rightarrow> string option" where
  "coingecko_symbol item =
     (case dict_get item ''symbol'' (JStr []) of JStr s \<Rightarrow> Some (upper s) | _ \<Rightarrow> None)"

definition coingecko_passes :: "coercion \<Rightarrow> raw_item \<Rightarrow> bool" where
  "coingecko_passes P item \<longleftrightarrow>
     (case coingecko_symbol item of
        None \<Rightarrow> False
      | Some s \<Rightarrow>
          str_accepted P (dict_get item ''id'' (JStr []))
        \<and> str_accepted P (JStr s)
        \<and> str_accepted P (dict_get item ''name'' (JStr []))
        \<and> opt_accepted (as_float P) (dict_get item ''current_price'' JNull)
        \<and> opt_accepted (as_float P) (dict_get item ''market_cap'' JNull)
        \<and> opt_accepted (as_float P) (dict_get item ''total_volume'' JNull)
        \<and> opt_accepted (as_float P) (dict_get item ''price_change_percentage_24h'' JNull)
        \<and> opt_accepted (as_int P) (dict_get item ''market_cap_rank'' JNull)
        \<and> as_str P (JStr ''coingecko'') \<noteq> None)"

definition coingecko_record :: "coercion \<Rightarrow> datetime \<Rightarrow> raw_item \<Rightarrow> coin_values" where
  "coingecko_record P now item =
     \<lparr>coin_id = the (as_str P (dict_get item ''id'' (JStr []))),
      symbol = upper (the (as_str P (JStr (the (coingecko_symbol item))))),
      name = the (as_str P (dict_get item ''name'' (JStr []))),
      current_price = clamped (opt_value (as_float P) (dict_get item ''current_price'' JNull)),
      market_cap = clamped (opt_value (as_float P) (dict_get item ''market_cap'' JNull)),
      volume_24h = clamped (opt_value (as_float P) (dict_get item ''total_volume'' JNull)),
      price_change_24h =
        clamped (opt_value (as_float P) (dict_get item ''price_change_percentage_24h'' JNull)),
      rank = opt_value (as_int P) (dict_get item ''market_cap_rank'' JNull),
      source = the (as_str P (JStr ''coingecko'')),
      last_updated = Some now\<rparr>"

definition csv_symbol :: "pylib \<Rightarrow> raw_item \<Rightarrow> string" where
  "csv_symbol L item = upper (py_str L (dict_get item ''symbol'' (JStr [])))"

definition csv_number :: "pylib \<Rightarrow> json \<Rightarrow> json" where
  "csv_number L cell = json_of_float (parse_float L cell)"

definition csv_rank :: "pylib \<Rightarrow> raw_item \<Rightarrow> json" where
  "csv_rank L item =
     (case parse_int L (dict_get item ''rank'' JNull) of Inl e \<Rightarrow> JNull | Inr r \<Rightarrow> json_of_int r)"

definition rank_overflows :: "pylib \<Rightarrow> raw_item \<Rightarrow> bool" where
  "rank_overflows L item \<longleftrightarrow>
     (let cell = dict_get item ''rank'' JNull
      in cell \<noteq> JNull \<and> cell \<noteq> JStr []
       \<and> (float_of_str L (py_str L cell) = Some (NonFinite PosInf)
          \<or> float_of_str L (py_str L cell) = Some (NonFinite NegInf)))"

definition csv_passes :: "coercion \<Rightarrow> pylib \<Rightarrow> raw_item \<Rightarrow> bool" where
  "csv_passes P L item \<longleftrightarrow>
     \<not> rank_overflows L item
   \<and> str_accepted P (dict_get item ''coin_id'' (dict_get item ''id'' (JStr [])))
   \<and> str_accepted P (JStr (csv_symbol L item))
   \<and> str_accepted P (dict_get item ''name'' (JStr []))
   \<and> opt_accepted (as_float P)
        (csv_number L (dict_get item ''price'' (dict_get item ''current_price'' JNull)))
   \<and> opt_accepted (as_float P) (csv_number L (dict_get item ''market_cap'' JNull))
   \<and> opt_accepted (as_float P)
        (csv_number L (dict_get item ''volume'' (dict_get item ''volume_24h'' JNull)))
   \<and> opt_accepted (as_float P)
        (csv_number L (dict_get item ''change_24h'' (dict_get item ''price_change_24h'' JNull)))
   \<and> opt_accepted (as_int P) (csv_rank L item)
   \<and> as_str P (JStr ''csv'') \<noteq> None"

definition csv_record :: "coercion \<Rightarrow> pylib \<Rightarrow> datetime \<Rightarrow> raw_item \<Rightarrow> coin_values" where
  "csv_record P L now item =
     \<lparr>coin_id = the (as_str P (dict_get item ''coin_id'' (dict_get item ''id'' (JStr [])))),
      symbol = upper (the (as_str P (JStr (csv_symbol L item)))),
      name = the (as_str P (dict_get item ''name'' (JStr []))),
      current_price =
        clamped (opt_value (as_float P)
          (csv_number L (dict_get item ''price'' (dict_get item ''current_price'' JNull)))),
      market_cap =
        clamped (opt_value (as_float P) (csv_number L (dict_get item ''market_cap'' JNull))),
      volume_24h =
        clamped (opt_value (as_float P)
          (csv_number L (dict_get item ''volume'' (dict_get item ''volume_24h'' JNull)))),
      price_change_24h =
        clamped (opt_value (as_float P)
          (csv_number L (dict_get item ''change_24h'' (dict_get item ''price_change_24h'' JNull)))),
      rank = opt_value (as_int P) (csv_rank L item),
      source = the (as_str P (JStr ''csv'')),
      last_updated = Some now\<rparr>"

text \<open>Auxiliary notions for the upsert: a row carries the mutable fields of a proposed
  record; every row of a key does so; every row of a key was stamped at a given time.\<close>

definition agrees :: "coin_values \<Rightarrow> coin \<Rightarrow> bool" where
  "agrees v row \<longleftrightarrow>
     name row = name v \<and> symbol row = symbol v \<and> current_price row = current_price v
   \<and> market_cap row = market_cap v \<and> volume_24h row = volume_24h v
   \<and> price_change_24h row = price_change_24h v \<and> rank row = rank v
   \<and> last_updated row = last_updated v"

definition agreed :: "coin_values \<Rightarrow> coin list \<Rightarrow> bool" where
  "agreed v rows \<longleftrightarrow> (\<forall>row\<in>set rows. conflict_key row = conflict_key v \<longrightarrow> agrees v row)"

definition stamped :: "datetime \<Rightarrow> coin_values \<Rightarrow> coin list \<Rightarrow> bool" where
  "stamped now v rows \<longleftrightarrow>
     (\<forall>row\<in>set rows. conflict_key row = conflict_key v \<longrightarrow> updated_at row = now)"

text \<open>The attempt numbers logged at the start of each attempt; a persistence layer without
  faults in a transaction; the checkpoint row of the pipeline's source; the run records of
  the pipeline's run id; back-off delays that the float power and \<^verbatim>\<open>time.sleep\<close> accept
  for every retry of a run; tables in which the failure of a run is recorded.\<close>

fun attempt_of :: "event \<Rightarrow> nat option" where
  "attempt_of (Starting k) = Some k"
| "attempt_of _ = None"

definition attempts :: "event list \<Rightarrow> nat list" where
  "attempts lg = List.map_filter attempt_of lg"

definition db_healthy :: "env \<Rightarrow> phase \<Rightarrow> bool" where
  "db_healthy E ph \<longleftrightarrow> (\<forall>op. db_fault E ph op = None)"

definition checkpoint_of :: "etl \<Rightarrow> database \<Rightarrow> etl_checkpoint option" where
  "checkpoint_of self db = find (\<lambda>c. cp_source c = source_name self) (etl_checkpoints db)"

definition runs_of :: "etl \<Rightarrow> database \<Rightarrow> etl_run list" where
  "runs_of self db = filter (\<lambda>r. run_id r = self_run_id self) (etl_runs db)"

definition delays_accepted :: "env \<Rightarrow> real \<Rightarrow> int \<Rightarrow> bool" where
  "delays_accepted E backoff_factor max_retries \<longleftrightarrow>
     (\<forall>k. 1 \<le> k \<and> int k < max_retries \<longrightarrow>
        0 \<le> backoff_factor ^ k \<and> backoff_factor ^ k \<le> float_max
      \<and> backoff_factor ^ k \<le> sleep_limit E)"

definition failure_recorded :: "etl \<Rightarrow> exn option \<Rightarrow> database \<Rightarrow> database \<Rightarrow> bool" where
  "failure_recorded self err db db' \<longleftrightarrow>
     (case checkpoint_of self db' of
        None \<Rightarrow> False
      | Some c \<Rightarrow> cp_status c = ''failure'' \<and> cp_error_message c = err)
   \<and> (case runs_of self db' of
        [r] \<Rightarrow> run_status r = ''failure'' \<and> run_error_message r = err
      | _ \<Rightarrow> False)
   \<and> coins db' = coins db \<and> raw_coingecko db' = raw_coingecko db \<and> raw_csv db' = raw_csv db"

section \<open>Concrete inputs for the examples\<close>

definition negative_rank_item :: raw_item where
  "negative_rank_item =
     [(''id'', JStr ''x''), (''symbol'', JStr ''x''), (''name'', JStr ''X''),
      (''market_cap_rank'', JInt (- 5))]"

definition gecko_good :: raw_item where
  "gecko_good = [(''id'', JStr ''ethereum''), (''symbol'', JStr ''eth''), (''name'', JStr ''Ethereum''),
                 (''current_price'', JFloat 2500), (''market_cap_rank'', JInt 2)]"

definition gecko_bad :: raw_item where
  "gecko_bad = [(''id'', JStr ''nameless''), (''symbol'', JStr ''nn''), (''current_price'', JFloat 1)]"

definition csv_good :: raw_item where
  "csv_good = [(''coin_id'', JStr ''bitcoin''), (''symbol'', JStr ''btc''), (''name'', JStr ''Bitcoin''),
               (''price'', JStr ''43000''), (''market_cap'', JStr ''840000000000''),
               (''volume'', JStr ''28000000000''), (''change_24h'', JStr ''2''),
               (''rank'', JStr ''1'')]"

definition csv_bad :: raw_item where
  "csv_bad = [(''coin_id'', JStr []), (''symbol'', JStr []), (''name'', JStr []),
              (''price'', JStr []), (''market_cap'', JStr []),
              (''volume'', JStr []), (''change_24h'', JStr []), (''rank'', JStr [])]"

definition csv_inf :: raw_item where
  "csv_inf = [(''coin_id'', JStr ''tether''), (''symbol'', JStr ''usdt''), (''name'', JStr ''Tether''),
              (''price'', JStr ''1''), (''rank'', JStr ''inf'')]"

definition empty_db :: database where
  "empty_db = \<lparr>coins = [], etl_checkpoints = [], etl_runs = [], raw_coingecko = [], raw_csv = []\<rparr>"

definition demo_self :: etl where
  "demo_self = \<lparr>source_name = ''csv'', self_run_id = ''run-1'', started_at = 10,
                 records_processed = 3\<rparr>"

definition demo_checkpoint :: etl_checkpoint where
  "demo_checkpoint = \<lparr>cp_source = ''csv'', last_run_at = Some 1, last_success_at = Some 1,
       last_failure_at = None, cp_status = ''success'', cp_records_processed = 2,
       cp_error_message = None, cp_created_at = 1, cp_updated_at = 1\<rparr>"

definition demo_db :: database where
  "demo_db = \<lparr>coins = [], etl_checkpoints = [demo_checkpoint], etl_runs = [],
               raw_coingecko = [], raw_csv = []\<rparr>"

definition db_with_run :: database where
  "db_with_run =
     \<lparr>coins = [], etl_checkpoints = [],
      etl_runs = [\<lparr>run_id = ''run-1'', run_source = ''csv'', run_status = ''success'',
                    run_records_processed = 2, duration_seconds = 1, run_started_at = 1,
                    completed_at = 2, run_error_message = None\<rparr>],
      raw_coingecko = [], raw_csv = []\<rparr>"

definition demo_coin :: coin_values where
  "demo_coin = \<lparr>coin_id = ''bitcoin'', symbol = ''BTC'', name = ''Bitcoin'',
      current_price = Some 43000, market_cap = None, volume_24h = None,
      price_change_24h = None, rank = Some 1, source = ''csv'', last_updated = Some 5\<rparr>"

definition all_raising :: env where
  "all_raising =
     \<lparr>p_extract = (\<lambda>k. Inl ''extract failed''),
      p_load_raw = (\<lambda>k raw db. Inl ''load_raw failed''),
      p_transform = (\<lambda>k raw. Inl ''transform failed''),
      db_fault = (\<lambda>ph op. Some ''database is down''),
      utcnow = (\<lambda>ph. 0),
      sleep_limit = 9223372036\<rparr>"

definition extract_fails :: env where
  "extract_fails =
     \<lparr>p_extract = (\<lambda>k. Inl ''connection refused''),
      p_load_raw = (\<lambda>k raw db. Inr db),
      p_transform = (\<lambda>k raw. Inr []),
      db_fault = (\<lambda>ph op. None),
      utcnow = (\<lambda>ph. 50),
      sleep_limit = 9223372036\<rparr>"

definition commit_fails :: env where
  "commit_fails =
     \<lparr>p_extract = (\<lambda>k. Inl ''connection refused''),
      p_load_raw = (\<lambda>k raw db. Inr db),
      p_transform = (\<lambda>k raw. Inr []),
      db_fault = (\<lambda>ph op. if ph = Finalize \<and> op = Commit then Some ''commit failed'' else None),
      utcnow = (\<lambda>ph. 50),
      sleep_limit = 9223372036\<rparr>"

definition always_succeeds :: env where
  "always_succeeds =
     \<lparr>p_extract = (\<lambda>k. Inr []),
      p_load_raw = (\<lambda>k raw db. Inr db),
      p_transform = (\<lambda>k raw. Inr []),
      db_fault = (\<lambda>ph op. None),
      utcnow = (\<lambda>ph. 60),
      sleep_limit = 9223372036\<rparr>"

definition job_a :: job where
  "job_a = \<lparr>job_self = \<lparr>source_name = ''a'', self_run_id = ''run-a'', started_at = 10,
                          records_processed = 0\<rparr>,
            job_env = extract_fails\<rparr>"

definition job_b :: job where
  "job_b = \<lparr>job_self = \<lparr>source_name = ''b'', self_run_id = ''run-b'', started_at = 10,
                          records_processed = 0\<rparr>,
            job_env = always_succeeds\<rparr>"

section \<open>Properties of the rate limiter\<close>

lemma acquire_rate_limit: "rate_limit (snd (acquire now n l)) = rate_limit l"
  by (simp add: acquire_def Let_def)

lemma acquire_last_update: "last_update (snd (acquire now n l)) = now"
  by (simp add: acquire_def Let_def)

lemma acquire_tokens:
  "tokens (snd (acquire now n l)) =
     (if of_int n \<le> refilled now l then refilled now l - of_int n else refilled now l)"
  by (simp add: acquire_def refilled_def Let_def)

lemma acquire_verdict: "fst (acquire now n l) \<longleftrightarrow> of_int n \<le> refilled now l"
  by (simp add: acquire_def refilled_def Let_def)

text \<open>
  C6. \<open>acquire n\<close> refills by elapsed time times capacity over 60, capped at the capacity,
  sets the refill timestamp to the current reading, and then succeeds, deducting \<open>n\<close>,
  exactly when the refilled bucket holds at least \<open>n\<close> tokens; otherwise it returns
  failure at once and keeps the refilled bucket. Consequently a limiter constructed with
  rate limit 1 grants the first \<open>acquire()\<close> made at or after its construction and
  rejects the next one made less than a second later.
\<close>

theorem acquire_token_bucket:
  "(fst (acquire now n l) \<longleftrightarrow> of_int n \<le> refilled now l)
   \<and> tokens (snd (acquire now n l)) =
       (if of_int n \<le> refilled now l then refilled now l - of_int n else refilled now l)
   \<and> last_update (snd (acquire now n l)) = now
   \<and> rate_limit (snd (acquire now n l)) = rate_limit l
   \<and> (t0 \<le> t1 \<and> t1 \<le> t2 \<and> t2 < t1 + 1 \<longrightarrow>
        fst (acquire t1 1 (init_limiter 1 t0))
        \<and> \<not> fst (acquire t2 1 (snd (acquire t1 1 (init_limiter 1 t0)))))"
proof -
  have first: "fst (acquire t1 1 (init_limiter 1 t0))" if "t0 \<le> t1"
    using that by (simp add: acquire_verdict refilled_def init_limiter_def)
  have second: "\<not> fst (acquire t2 1 (snd (acquire t1 1 (init_limiter 1 t0))))"
    if "t0 \<le> t1" "t1 \<le> t2" "t2 < t1 + 1"
  proof -
    let ?l1 = "snd (acquire t1 1 (init_limiter 1 t0))"
    have "refilled t1 (init_limiter 1 t0) = 1"
      using that(1) by (simp add: refilled_def init_limiter_def)
    then have tok: "tokens ?l1 = 0"
      by (simp add: acquire_tokens)
    have lu: "last_update ?l1 = t1" and rl: "rate_limit ?l1 = 1"
      by (simp_all add: acquire_last_update acquire_rate_limit init_limiter_def)
    have "refilled t2 ?l1 = min 1 ((t2 - t1) / 60)"
      by (simp add: refilled_def tok lu rl)
    also have "\<dots> < 1"
      using that(3) by (simp add: min_def)
    finally show ?thesis
      by (simp add: acquire_verdict)
  qed
  show ?thesis
    using first second
    by (simp add: acquire_verdict acquire_tokens acquire_last_update acquire_rate_limit)
qed

theorem acquire_token_bucket_witness:
  "fst (acquire 0 1 (init_limiter 1 0))
   \<and> \<not> fst (acquire (1/2) 1 (snd (acquire 0 1 (init_limiter 1 0))))"
  using acquire_token_bucket [of 0 1 "init_limiter 1 0" 0 0 "1/2"]
  by (simp add: refilled_def init_limiter_def)

lemma refilled_bounds:
  assumes "bucket_ok l" "last_update l \<le> now"
  shows "tokens l \<le> refilled now l" "refilled now l \<le> of_int (rate_limit l)"
proof -
  have rl: "0 \<le> (of_int (rate_limit l) :: real)"
    using assms(1) by (simp add: bucket_ok_def)
  have "0 \<le> (now - last_update l) * of_int (rate_limit l) / 60"
    using assms(2) rl by simp
  then show "tokens l \<le> refilled now l"
    using assms(1) by (simp add: refilled_def bucket_ok_def)
  show "refilled now l \<le> of_int (rate_limit l)"
    by (simp add: refilled_def)
qed

lemma acquire_bucket_ok:
  assumes "bucket_ok l" "last_update l \<le> now" "1 \<le> n"
  shows "bucket_ok (snd (acquire now n l))"
proof -
  have "0 \<le> tokens l" using assms(1) by (simp add: bucket_ok_def)
  with refilled_bounds[OF assms(1,2)] assms(3) show ?thesis
    by (simp add: bucket_ok_def acquire_tokens acquire_rate_limit)
qed

lemma acquires_bucket_ok:
  "bucket_ok l \<Longrightarrow> sorted (last_update l # map fst cs) \<Longrightarrow> \<forall>c\<in>set cs. 1 \<le> snd c
     \<Longrightarrow> bucket_ok (acquires cs l)"
proof (induction cs arbitrary: l)
  case Nil
  then show ?case by simp
next
  case (Cons c cs)
  obtain now n where c: "c = (now, n)" by (cases c)
  have step: "bucket_ok (snd (acquire now n l))"
    using Cons.prems c by (intro acquire_bucket_ok) auto
  have "sorted (last_update (snd (acquire now n l)) # map fst cs)"
    using Cons.prems(2) c by (simp add: acquire_last_update)
  with step Cons.IH Cons.prems(3) show ?case
    by (simp add: c)
qed

text \<open>
  C10, as amended. For a limiter constructed with a rate limit of at least 0, after any
  sequence of \<open>acquire n\<close> calls with \<open>n \<ge> 1\<close> whose clock readings never go back (the
  reading of each call is at least that of the call before it, and that of the first call
  at least that of the construction), the token count lies between 0 and the rate limit.
\<close>

theorem tokens_within_capacity:
  assumes "0 \<le> rl" and "sorted (t0 # map fst cs)" and "\<forall>c\<in>set cs. 1 \<le> snd c"
  shows "0 \<le> tokens (acquires cs (init_limiter rl t0))
         \<and> tokens (acquires cs (init_limiter rl t0)) \<le> of_int rl"
proof -
  have init: "bucket_ok (init_limiter rl t0)"
    using assms(1) by (simp add: bucket_ok_def init_limiter_def)
  have rl: "rate_limit (acquires cs l) = rate_limit l" for l
    by (induction cs arbitrary: l) (auto simp: acquire_rate_limit)
  have "bucket_ok (acquires cs (init_limiter rl t0))"
    using init assms(2,3) by (intro acquires_bucket_ok) (simp_all add: init_limiter_def)
  then show ?thesis
    by (simp add: bucket_ok_def rl) (simp add: init_limiter_def)
qed

theorem tokens_within_capacity_witness:
  "0 \<le> tokens (acquires [(0, 1), (1/2, 1), (90, 2)] (init_limiter 2 0))
   \<and> tokens (acquires [(0, 1), (1/2, 1), (90, 2)] (init_limiter 2 0)) \<le> 2"
  using tokens_within_capacity [of 2 0 "[(0, 1), (1/2, 1), (90, 2)]"]
  by simp

text \<open>
  C10 as stated fails: \<^verbatim>\<open>time.time()\<close> is the wall clock, and when it is set back
  between two calls the refill is negative. A limiter of rate limit 60 emptied at reading
  100 and asked again at reading 40 is left with \<open>- 60\<close> tokens.
\<close>

theorem clock_set_back:
  "tokens (acquires [(100, 60), (40, 1)] (init_limiter 60 100)) = - 60"
  by (simp add: acquire_def init_limiter_def Let_def)

text \<open>The upper bound needs nothing of the clock.\<close>

lemma acquire_upper_bound:
  assumes "0 \<le> n"
  shows "tokens (snd (acquire now n l)) \<le> of_int (rate_limit l)"
proof -
  have "refilled now l \<le> of_int (rate_limit l)"
    by (simp add: refilled_def)
  moreover have "(0::real) \<le> of_int n"
    using assms by simp
  ultimately show ?thesis
    by (simp add: acquire_tokens)
qed

lemma acquires_upper_bound:
  "tokens l \<le> of_int (rate_limit l) \<Longrightarrow> \<forall>c\<in>set cs. 0 \<le> snd c
     \<Longrightarrow> tokens (acquires cs l) \<le> of_int (rate_limit l)"
proof (induction cs arbitrary: l)
  case Nil
  then show ?case by simp
next
  case (Cons c cs)
  obtain now n where c: "c = (now, n)" by (cases c)
  have "tokens (snd (acquire now n l)) \<le> of_int (rate_limit (snd (acquire now n l)))"
    using Cons.prems(2) c by (simp add: acquire_upper_bound acquire_rate_limit)
  from Cons.IH[OF this] Cons.prems(2) show ?case
    by (simp add: c acquire_rate_limit)
qed

section \<open>Properties of validation and transform\<close>

lemma upper_char_idem: "upper_char (upper_char c) = upper_char c"
proof (cases "97 \<le> (of_char c :: nat) \<and> (of_char c :: nat) \<le> 122")
  case True
  then have "(of_char c - 32 :: nat) < 256"
    by linarith
  then have "(of_char c - 32 :: nat) mod 256 = of_char c - 32"
    by simp
  with True show ?thesis
    by (simp add: upper_char_def Let_def) arith
next
  case False
  then show ?thesis
    by (auto simp add: upper_char_def Let_def)
qed

lemma upper_idem: "upper (upper s) = upper s"
  by (simp add: upper_def upper_char_idem)

lemma symbol_uppercase_upper: "upper (symbol_uppercase s) = symbol_uppercase s"
  by (simp add: symbol_uppercase_def upper_idem) (simp add: upper_def)

lemma validate_numeric_nonneg: "validate_numeric p = Some x \<Longrightarrow> 0 \<le> x"
  by (auto simp: validate_numeric_def split: if_splits)

lemma required_str_nonempty: "required_str P j = Some s \<Longrightarrow> s \<noteq> []"
  by (auto simp: required_str_def split: option.splits if_splits)

lemma optional_field_negative:
  "optional_field co j = Some p \<Longrightarrow> co j = Some x \<Longrightarrow> x < 0 \<Longrightarrow> validate_numeric p = None"
  by (cases j) (auto simp: optional_field_def validate_numeric_def)

lemma CoinCreate_SomeD:
  assumes "CoinCreate P d = Some v"
  obtains cid sy nm price cap vol chg rk src where
    "required_str P (cd_coin_id d) = Some cid"
    "required_str P (cd_symbol d) = Some sy"
    "required_str P (cd_name d) = Some nm"
    "optional_field (as_float P) (cd_current_price d) = Some price"
    "optional_field (as_float P) (cd_market_cap d) = Some cap"
    "optional_field (as_float P) (cd_volume_24h d) = Some vol"
    "optional_field (as_float P) (cd_price_change_24h d) = Some chg"
    "optional_field (as_int P) (cd_rank d) = Some rk"
    "as_str P (cd_source d) = Some src"
    "v = \<lparr>coin_id = cid, symbol = symbol_uppercase sy, name = nm,
          current_price = validate_numeric price, market_cap = validate_numeric cap,
          volume_24h = validate_numeric vol, price_change_24h = validate_numeric chg,
          rank = rk, source = src, last_updated = cd_last_updated d\<rparr>"
  using assms unfolding CoinCreate_def
  by (auto split: option.splits)

lemma symbol_uppercase_nonempty: "s \<noteq> [] \<Longrightarrow> symbol_uppercase s \<noteq> []"
  by (simp add: symbol_uppercase_def upper_def)

lemma CoinCreate_validated:
  assumes "CoinCreate P d = Some v"
  shows "upper (symbol v) = symbol v"
    and "coin_id v \<noteq> []" and "symbol v \<noteq> []" and "name v \<noteq> []"
    and "\<And>x. current_price v = Some x \<Longrightarrow> 0 \<le> x"
    and "\<And>x. market_cap v = Some x \<Longrightarrow> 0 \<le> x"
    and "\<And>x. volume_24h v = Some x \<Longrightarrow> 0 \<le> x"
    and "\<And>x. price_change_24h v = Some x \<Longrightarrow> 0 \<le> x"
    and "\<And>x. as_float P (cd_current_price d) = Some x \<Longrightarrow> x < 0 \<Longrightarrow> current_price v = None"
    and "\<And>x. as_float P (cd_market_cap d) = Some x \<Longrightarrow> x < 0 \<Longrightarrow> market_cap v = None"
    and "\<And>x. as_float P (cd_volume_24h d) = Some x \<Longrightarrow> x < 0 \<Longrightarrow> volume_24h v = None"
    and "\<And>x. as_float P (cd_price_change_24h d) = Some x \<Longrightarrow> x < 0
           \<Longrightarrow> price_change_24h v = None"
    and "optional_field (as_int P) (cd_rank d) = Some (rank v)"
proof -
  from assms obtain cid sy nm price cap vol chg rk src where
    f: "required_str P (cd_coin_id d) = Some cid"
    "required_str P (cd_symbol d) = Some sy"
    "required_str P (cd_name d) = Some nm"
    "optional_field (as_float P) (cd_current_price d) = Some price"
    "optional_field (as_float P) (cd_market_cap d) = Some cap"
    "optional_field (as_float P) (cd_volume_24h d) = Some vol"
    "optional_field (as_float P) (cd_price_change_24h d) = Some chg"
    "optional_field (as_int P) (cd_rank d) = Some rk"
    and v: "v = \<lparr>coin_id = cid, symbol = symbol_uppercase sy, name = nm,
          current_price = validate_numeric price, market_cap = validate_numeric cap,
          volume_24h = validate_numeric vol, price_change_24h = validate_numeric chg,
          rank = rk, source = src, last_updated = cd_last_updated d\<rparr>"
    by (rule CoinCreate_SomeD)
  show "upper (symbol v) = symbol v"
    by (simp add: v symbol_uppercase_upper)
  show "coin_id v \<noteq> []" "symbol v \<noteq> []" "name v \<noteq> []"
    using f(1-3) by (simp_all add: v required_str_nonempty symbol_uppercase_nonempty)
  show "\<And>x. current_price v = Some x \<Longrightarrow> 0 \<le> x"
       "\<And>x. market_cap v = Some x \<Longrightarrow> 0 \<le> x"
       "\<And>x. volume_24h v = Some x \<Longrightarrow> 0 \<le> x"
       "\<And>x. price_change_24h v = Some x \<Longrightarrow> 0 \<le> x"
    by (simp_all add: v validate_numeric_nonneg)
  show "\<And>x. as_float P (cd_current_price d) = Some x \<Longrightarrow> x < 0 \<Longrightarrow> current_price v = None"
    using f(4) by (simp add: v optional_field_negative)
  show "\<And>x. as_float P (cd_market_cap d) = Some x \<Longrightarrow> x < 0 \<Longrightarrow> market_cap v = None"
    using f(5) by (simp add: v optional_field_negative)
  show "\<And>x. as_float P (cd_volume_24h d) = Some x \<Longrightarrow> x < 0 \<Longrightarrow> volume_24h v = None"
    using f(6) by (simp add: v optional_field_negative)
  show "\<And>x. as_float P (cd_price_change_24h d) = Some x \<Longrightarrow> x < 0
           \<Longrightarrow> price_change_24h v = None"
    using f(7) by (simp add: v optional_field_negative)
  show "optional_field (as_int P) (cd_rank d) = Some (rank v)"
    using f(8) by (simp add: v)
qed

text \<open>
  C4, as amended. For every raw item that the CoinGecko transform accepts, the resulting
  record has an upper-cased symbol and non-empty \<open>coin_id\<close>, \<open>symbol\<close> and \<open>name\<close>; none
  of its fields \<open>current_price\<close>, \<open>market_cap\<close>, \<open>volume_24h\<close>, \<open>price_change_24h\<close> is
  negative, and each of them is null when the input value was negative. The rank is the
  coerced input rank, whatever its sign.
\<close>

theorem coingecko_item_validated:
  assumes "coingecko_item P now item = Some v"
  shows "upper (symbol v) = symbol v
       \<and> coin_id v \<noteq> [] \<and> symbol v \<noteq> [] \<and> name v \<noteq> []
       \<and> (\<forall>x. current_price v = Some x \<longrightarrow> 0 \<le> x)
       \<and> (\<forall>x. market_cap v = Some x \<longrightarrow> 0 \<le> x)
       \<and> (\<forall>x. volume_24h v = Some x \<longrightarrow> 0 \<le> x)
       \<and> (\<forall>x. price_change_24h v = Some x \<longrightarrow> 0 \<le> x)
       \<and> (\<forall>x. as_float P (dict_get item ''current_price'' JNull) = Some x \<and> x < 0
              \<longrightarrow> current_price v = None)
       \<and> (\<forall>x. as_float P (dict_get item ''market_cap'' JNull) = Some x \<and> x < 0
              \<longrightarrow> market_cap v = None)
       \<and> (\<forall>x. as_float P (dict_get item ''total_volume'' JNull) = Some x \<and> x < 0
              \<longrightarrow> volume_24h v = None)
       \<and> (\<forall>x. as_float P (dict_get item ''price_change_percentage_24h'' JNull) = Some x \<and> x < 0
              \<longrightarrow> price_change_24h v = None)
       \<and> optional_field (as_int P) (dict_get item ''market_cap_rank'' JNull) = Some (rank v)"
proof -
  from assms obtain d where cc: "CoinCreate P d = Some v"
    and d: "cd_current_price d = dict_get item ''current_price'' JNull"
      "cd_market_cap d = dict_get item ''market_cap'' JNull"
      "cd_volume_24h d = dict_get item ''total_volume'' JNull"
      "cd_price_change_24h d = dict_get item ''price_change_percentage_24h'' JNull"
      "cd_rank d = dict_get item ''market_cap_rank'' JNull"
    by (auto simp: coingecko_item_def split: json.splits)
  from CoinCreate_validated [OF cc] show ?thesis
    unfolding d by blast
qed

lemma coingecko_example:
  "coingecko_item exact_types 7
     [(''id'', JStr ''ethereum''), (''symbol'', JStr ''eth''), (''name'', JStr ''Ethereum''),
      (''current_price'', JFloat (- 100)), (''market_cap_rank'', JInt 2)]
   = Some \<lparr>coin_id = ''ethereum'', symbol = ''ETH'', name = ''Ethereum'',
            current_price = None, market_cap = None, volume_24h = None,
            price_change_24h = None, rank = Some 2, source = ''coingecko'',
            last_updated = Some 7\<rparr>"
  by code_simp

theorem coingecko_item_validated_witness:
  "coingecko_item exact_types 7
     [(''id'', JStr ''ethereum''), (''symbol'', JStr ''eth''), (''name'', JStr ''Ethereum''),
      (''current_price'', JFloat (- 100)), (''market_cap_rank'', JInt 2)]
   = Some \<lparr>coin_id = ''ethereum'', symbol = ''ETH'', name = ''Ethereum'',
            current_price = None, market_cap = None, volume_24h = None,
            price_change_24h = None, rank = Some 2, source = ''coingecko'',
            last_updated = Some 7\<rparr>
   \<and> upper ''ETH'' = ''ETH''"
  using coingecko_item_validated [OF coingecko_example] coingecko_example
  by simp

text \<open>
  C4 as stated fails for the rank: the validator is declared for the four float fields
  only, and an accepted item keeps a negative \<^verbatim>\<open>market_cap_rank\<close>.
\<close>

theorem negative_rank_kept:
  "coingecko_transform exact_types 0 [negative_rank_item]
   = [\<lparr>coin_id = ''x'', symbol = ''X'', name = ''X'', current_price = None,
        market_cap = None, volume_24h = None, price_change_24h = None,
        rank = Some (- 5), source = ''coingecko'', last_updated = Some 0\<rparr>]"
  by code_simp

lemma transform_loop_map_filter:
  "transform_loop body raw_items normalized = normalized @ List.map_filter body raw_items"
  by (induction raw_items arbitrary: normalized) (auto simp: map_filter_simps split: option.splits)

lemma map_filter_if:
  "List.map_filter (\<lambda>x. if p x then Some (f x) else None) xs = map f (filter p xs)"
  by (induction xs) (simp_all add: map_filter_simps)

lemma required_str_eq:
  "required_str P v = (if str_accepted P v then Some (the (as_str P v)) else None)"
  by (simp add: required_str_def str_accepted_def split: option.splits) (auto simp: Suc_le_eq)

lemma optional_field_eq:
  "optional_field co v = (if opt_accepted co v then Some (opt_value co v) else None)"
  by (cases v; cases "co v"; simp add: optional_field_def opt_accepted_def opt_value_def)

lemma validate_numeric_clamped: "validate_numeric v = clamped v"
  by (simp add: validate_numeric_def clamped_def split: option.splits)

lemma CoinCreate_eq:
  "CoinCreate P d =
     (if str_accepted P (cd_coin_id d) \<and> str_accepted P (cd_symbol d) \<and> str_accepted P (cd_name d)
       \<and> opt_accepted (as_float P) (cd_current_price d) \<and> opt_accepted (as_float P) (cd_market_cap d)
       \<and> opt_accepted (as_float P) (cd_volume_24h d)
       \<and> opt_accepted (as_float P) (cd_price_change_24h d)
       \<and> opt_accepted (as_int P) (cd_rank d) \<and> as_str P (cd_source d) \<noteq> None
      then Some \<lparr>coin_id = the (as_str P (cd_coin_id d)),
                 symbol = upper (the (as_str P (cd_symbol d))),
                 name = the (as_str P (cd_name d)),
                 current_price = clamped (opt_value (as_float P) (cd_current_price d)),
                 market_cap = clamped (opt_value (as_float P) (cd_market_cap d)),
                 volume_24h = clamped (opt_value (as_float P) (cd_volume_24h d)),
                 price_change_24h = clamped (opt_value (as_float P) (cd_price_change_24h d)),
                 rank = opt_value (as_int P) (cd_rank d),
                 source = the (as_str P (cd_source d)),
                 last_updated = cd_last_updated d\<rparr>
      else None)"
proof -
  have sy: "str_accepted P v \<Longrightarrow> symbol_uppercase (the (as_str P v)) = upper (the (as_str P v))" for v
    by (simp add: symbol_uppercase_def str_accepted_def split: option.splits)
  show ?thesis
    by (simp add: CoinCreate_def required_str_eq optional_field_eq validate_numeric_clamped sy
        split: option.splits)
qed

lemma coingecko_item_eq:
  "coingecko_item P now item =
     (if coingecko_passes P item then Some (coingecko_record P now item) else None)"
  by (simp add: coingecko_item_def coingecko_passes_def coingecko_record_def coingecko_symbol_def
      CoinCreate_eq split: json.splits)

lemma parse_int_overflows:
  "rank_overflows L item \<Longrightarrow>
     parse_int L (dict_get item ''rank'' JNull) = Inl ''cannot convert float infinity to integer''"
  by (auto simp: parse_int_def rank_overflows_def Let_def)

lemma parse_int_returns:
  "\<not> rank_overflows L item \<Longrightarrow> \<exists>r. parse_int L (dict_get item ''rank'' JNull) = Inr r"
  by (auto simp: parse_int_def rank_overflows_def Let_def
      split: option.splits pyfloat.splits nonfinite.splits)

lemma csv_item_eq:
  "csv_item P L now item =
     (if csv_passes P L item then Some (csv_record P L now item) else None)"
proof (cases "rank_overflows L item")
  case True
  then show ?thesis
    by (simp add: csv_item_def csv_passes_def parse_int_overflows)
next
  case False
  then obtain r where r: "parse_int L (dict_get item ''rank'' JNull) = Inr r"
    using parse_int_returns by blast
  show ?thesis
    using False
    by (simp add: csv_item_def csv_passes_def csv_record_def csv_symbol_def csv_number_def
        csv_rank_def r CoinCreate_eq)
qed

lemma coingecko_transform_eq:
  "coingecko_transform P now raw_items =
     map (coingecko_record P now) (filter (coingecko_passes P) raw_items)"
proof -
  have "coingecko_item P now =
        (\<lambda>item. if coingecko_passes P item then Some (coingecko_record P now item) else None)"
    by (rule ext) (rule coingecko_item_eq)
  then show ?thesis
    by (simp add: coingecko_transform_def transform_loop_map_filter map_filter_if)
qed

lemma csv_transform_eq:
  "csv_transform P L now raw_items =
     map (csv_record P L now) (filter (csv_passes P L) raw_items)"
proof -
  have "csv_item P L now =
        (\<lambda>item. if csv_passes P L item then Some (csv_record P L now item) else None)"
    by (rule ext) (rule csv_item_eq)
  then show ?thesis
    by (simp add: csv_transform_def transform_loop_map_filter map_filter_if)
qed

lemma upper_Nil: "upper [] = []"
  by (simp add: upper_def)

lemma dict_get_missing: "map_of item k = None \<Longrightarrow> dict_get item k d = d"
  by (simp add: dict_get_def)

lemma empty_str_refused: "as_str P (JStr []) = Some [] \<Longrightarrow> \<not> str_accepted P (JStr [])"
  by (simp add: str_accepted_def)

lemma coingecko_required:
  assumes "as_str P (JStr []) = Some []"
      and "map_of item ''id'' = None \<or> map_of item ''symbol'' = None \<or> map_of item ''name'' = None"
  shows "\<not> coingecko_passes P item"
proof -
  note e = empty_str_refused[OF assms(1)]
  from assms(2) consider (id) "map_of item ''id'' = None" | (sy) "map_of item ''symbol'' = None"
    | (nm) "map_of item ''name'' = None"
    by (elim disjE conjE)
  then show ?thesis
  proof cases
    case id
    then show ?thesis
      by (simp add: coingecko_passes_def dict_get_missing e split: option.splits)
  next
    case sy
    then have "coingecko_symbol item = Some []"
      by (simp add: coingecko_symbol_def dict_get_missing upper_Nil)
    then show ?thesis
      by (simp add: coingecko_passes_def e)
  next
    case nm
    then show ?thesis
      by (simp add: coingecko_passes_def dict_get_missing e split: option.splits)
  qed
qed

lemma csv_required:
  assumes "as_str P (JStr []) = Some []"
      and "map_of item ''coin_id'' = None \<and> map_of item ''id'' = None
           \<or> map_of item ''symbol'' = None \<or> map_of item ''name'' = None"
  shows "\<not> csv_passes P L item"
proof -
  note e = empty_str_refused[OF assms(1)]
  from assms(2) consider (id) "map_of item ''coin_id'' = None" "map_of item ''id'' = None"
    | (sy) "map_of item ''symbol'' = None" | (nm) "map_of item ''name'' = None"
    by (elim disjE conjE)
  then show ?thesis
  proof cases
    case id
    then show ?thesis
      by (simp add: csv_passes_def dict_get_missing e)
  next
    case sy
    then have "csv_symbol L item = []"
      by (simp add: csv_symbol_def dict_get_missing py_str_def upper_Nil)
    then show ?thesis
      by (simp add: csv_passes_def e)
  next
    case nm
    then show ?thesis
      by (simp add: csv_passes_def dict_get_missing e)
  qed
qed

lemma coingecko_load_raw_rows:
  "raw_coingecko (coingecko_load_raw now raw_items db) =
     raw_coingecko db @
       map (\<lambda>item. \<lparr>raw_coin_id = dict_get item ''id'' (JStr ''unknown''),
                     raw_data = item, ingested_at = now\<rparr>) raw_items"
  by (induction raw_items arbitrary: db) auto

lemma csv_load_raw_rows:
  "raw_csv (csv_load_raw now raw_items db) =
     raw_csv db @
       map (\<lambda>item. \<lparr>raw_coin_id = dict_get item ''coin_id'' (dict_get item ''id'' (JStr ''unknown'')),
                     raw_data = item, ingested_at = now\<rparr>) raw_items"
  by (induction raw_items arbitrary: db) auto

text \<open>
  C5. For every batch of raw items, each transform returns exactly the records of the
  items that pass validation, in the order of the batch: the loop with its handler is the
  filter of the passing items followed by the map to their records. A failing item is
  dropped on its own, and removing it from the batch changes nothing for its siblings; an
  item in which a required field is missing fails (for a coercion that keeps the empty
  string). \<^verbatim>\<open>load_raw\<close> adds one raw record per raw item, carrying the item, whatever
  transform makes of it.
\<close>

theorem transform_drops_items_individually:
  "coingecko_transform P now raw_items =
     map (coingecko_record P now) (filter (coingecko_passes P) raw_items)
   \<and> csv_transform P L now raw_items =
       map (csv_record P L now) (filter (csv_passes P L) raw_items)
   \<and> (\<not> coingecko_passes P bad \<longrightarrow>
        coingecko_transform P now (xs @ bad # ys) = coingecko_transform P now (xs @ ys))
   \<and> (\<not> csv_passes P L bad \<longrightarrow>
        csv_transform P L now (xs @ bad # ys) = csv_transform P L now (xs @ ys))
   \<and> (as_str P (JStr []) = Some []
        \<and> (map_of item ''id'' = None \<or> map_of item ''symbol'' = None \<or> map_of item ''name'' = None)
        \<longrightarrow> \<not> coingecko_passes P item)
   \<and> (as_str P (JStr []) = Some []
        \<and> (map_of item ''coin_id'' = None \<and> map_of item ''id'' = None
           \<or> map_of item ''symbol'' = None \<or> map_of item ''name'' = None)
        \<longrightarrow> \<not> csv_passes P L item)
   \<and> map raw_data (raw_coingecko (coingecko_load_raw now raw_items db)) =
        map raw_data (raw_coingecko db) @ raw_items
   \<and> map raw_data (raw_csv (csv_load_raw now raw_items db)) =
        map raw_data (raw_csv db) @ raw_items"
proof -
  have 1: "map raw_data (raw_coingecko (coingecko_load_raw now raw_items db)) =
        map raw_data (raw_coingecko db) @ raw_items"
    by (simp add: coingecko_load_raw_rows comp_def)
  have 2: "map raw_data (raw_csv (csv_load_raw now raw_items db)) =
        map raw_data (raw_csv db) @ raw_items"
    by (simp add: csv_load_raw_rows comp_def)
  have 3: "\<not> coingecko_passes P bad \<longrightarrow>
        coingecko_transform P now (xs @ bad # ys) = coingecko_transform P now (xs @ ys)"
    by (simp add: coingecko_transform_eq)
  have 4: "\<not> csv_passes P L bad \<longrightarrow>
        csv_transform P L now (xs @ bad # ys) = csv_transform P L now (xs @ ys)"
    by (simp add: csv_transform_eq)
  have 5: "as_str P (JStr []) = Some []
        \<and> (map_of item ''id'' = None \<or> map_of item ''symbol'' = None \<or> map_of item ''name'' = None)
        \<longrightarrow> \<not> coingecko_passes P item"
    by (intro impI, elim conjE) (rule coingecko_required)
  have 6: "as_str P (JStr []) = Some []
        \<and> (map_of item ''coin_id'' = None \<and> map_of item ''id'' = None
           \<or> map_of item ''symbol'' = None \<or> map_of item ''name'' = None)
        \<longrightarrow> \<not> csv_passes P L item"
    by (intro impI, elim conjE) (rule csv_required)
  show ?thesis
    by (intro conjI) (rule coingecko_transform_eq csv_transform_eq 1 2 3 4 5 6)+
qed

lemma upper_btc: "upper ''btc'' = ''BTC''"
  by code_simp

lemma upper_BTC: "upper ''BTC'' = ''BTC''"
  by code_simp

lemma upper_eth: "upper ''eth'' = ''ETH''"
  by code_simp

lemma upper_ETH: "upper ''ETH'' = ''ETH''"
  by code_simp

lemma upper_nn: "upper ''nn'' = ''NN''"
  by code_simp

lemma upper_usdt: "upper ''usdt'' = ''USDT''"
  by code_simp

lemmas passes_eval =
  coingecko_passes_def coingecko_record_def coingecko_symbol_def csv_passes_def csv_record_def
  csv_symbol_def csv_number_def csv_rank_def rank_overflows_def str_accepted_def opt_accepted_def
  opt_value_def clamped_def exact_types_def dict_get_def py_str_def parse_float_def parse_int_def
  json_of_float_def json_of_int_def strip_money_def plain_decimal_def py_int_def Let_def
  upper_btc upper_BTC upper_eth upper_ETH upper_nn upper_usdt upper_Nil

lemma gecko_batch:
  "filter (coingecko_passes exact_types) [gecko_good, gecko_bad] = [gecko_good]"
  "coingecko_record exact_types 7 gecko_good =
     \<lparr>coin_id = ''ethereum'', symbol = ''ETH'', name = ''Ethereum'', current_price = Some 2500,
      market_cap = None, volume_24h = None, price_change_24h = None, rank = Some 2,
      source = ''coingecko'', last_updated = Some 7\<rparr>"
  by (simp_all add: gecko_good_def gecko_bad_def passes_eval)

lemma csv_batch:
  "filter (csv_passes exact_types plain_decimal) [csv_good, csv_bad, csv_inf] = [csv_good]"
  "csv_record exact_types plain_decimal 5 csv_good =
     \<lparr>coin_id = ''bitcoin'', symbol = ''BTC'', name = ''Bitcoin'', current_price = Some 43000,
      market_cap = Some 840000000000, volume_24h = Some 28000000000,
      price_change_24h = Some 2, rank = Some 1, source = ''csv'', last_updated = Some 5\<rparr>"
  by (simp_all add: csv_good_def csv_bad_def csv_inf_def passes_eval)

text \<open>
  Two batches: two CoinGecko items of which one has no name, and three CSV rows of which
  one has empty required fields (the row of the test suite) and one has the rank
  \<^verbatim>\<open>inf\<close>. Each gives one normalized record, and one raw record per item.
\<close>

theorem transform_drops_items_individually_witness:
  "coingecko_transform exact_types 7 [gecko_good, gecko_bad] =
     [\<lparr>coin_id = ''ethereum'', symbol = ''ETH'', name = ''Ethereum'', current_price = Some 2500,
       market_cap = None, volume_24h = None, price_change_24h = None, rank = Some 2,
       source = ''coingecko'', last_updated = Some 7\<rparr>]
   \<and> csv_transform exact_types plain_decimal 5 [csv_good, csv_bad, csv_inf] =
     [\<lparr>coin_id = ''bitcoin'', symbol = ''BTC'', name = ''Bitcoin'', current_price = Some 43000,
       market_cap = Some 840000000000, volume_24h = Some 28000000000,
       price_change_24h = Some 2, rank = Some 1, source = ''csv'', last_updated = Some 5\<rparr>]
   \<and> length (raw_coingecko (coingecko_load_raw 7 [gecko_good, gecko_bad] empty_db)) = 2
   \<and> length (raw_csv (csv_load_raw 5 [csv_good, csv_bad, csv_inf] empty_db)) = 3"
proof -
  note g = transform_drops_items_individually
             [where P = exact_types and now = 7 and raw_items = "[gecko_good, gecko_bad]"
                and db = empty_db]
  note c = transform_drops_items_individually
             [where P = exact_types and now = 5 and L = plain_decimal
                and raw_items = "[csv_good, csv_bad, csv_inf]" and db = empty_db]
  have 1: "coingecko_transform exact_types 7 [gecko_good, gecko_bad] =
     map (coingecko_record exact_types 7) (filter (coingecko_passes exact_types) [gecko_good, gecko_bad])"
    using g by blast
  have 2: "csv_transform exact_types plain_decimal 5 [csv_good, csv_bad, csv_inf] =
     map (csv_record exact_types plain_decimal 5)
       (filter (csv_passes exact_types plain_decimal) [csv_good, csv_bad, csv_inf])"
    using c by blast
  have "length (map raw_data (raw_coingecko (coingecko_load_raw 7 [gecko_good, gecko_bad] empty_db))) = 2"
    using g by (simp add: empty_db_def)
  then have 3: "length (raw_coingecko (coingecko_load_raw 7 [gecko_good, gecko_bad] empty_db)) = 2"
    by simp
  have "length (map raw_data (raw_csv (csv_load_raw 5 [csv_good, csv_bad, csv_inf] empty_db))) = 3"
    using c by (simp add: empty_db_def)
  then have 4: "length (raw_csv (csv_load_raw 5 [csv_good, csv_bad, csv_inf] empty_db)) = 3"
    by simp
  have 5: "coingecko_transform exact_types 7 [gecko_good, gecko_bad] =
     [\<lparr>coin_id = ''ethereum'', symbol = ''ETH'', name = ''Ethereum'', current_price = Some 2500,
       market_cap = None, volume_24h = None, price_change_24h = None, rank = Some 2,
       source = ''coingecko'', last_updated = Some 7\<rparr>]"
    by (simp only: 1 gecko_batch list.map)
  have 6: "csv_transform exact_types plain_decimal 5 [csv_good, csv_bad, csv_inf] =
     [\<lparr>coin_id = ''bitcoin'', symbol = ''BTC'', name = ''Bitcoin'', current_price = Some 43000,
       market_cap = Some 840000000000, volume_24h = Some 28000000000,
       price_change_24h = Some 2, rank = Some 1, source = ''csv'', last_updated = Some 5\<rparr>]"
    by (simp only: 2 csv_batch list.map)
  from 5 6 3 4 show ?thesis
    by blast
qed


section \<open>Properties of the checkpoint and of the upsert\<close>

lemma find_update_first:
  "find p xs = Some x \<Longrightarrow>
     \<exists>pre post. xs = pre @ x # post \<and> (\<forall>y\<in>set pre. \<not> p y) \<and> p x
                \<and> update_first p f xs = pre @ f x # post"
proof (induction xs)
  case Nil
  then show ?case by simp
next
  case (Cons a xs)
  show ?case
  proof (cases "p a")
    case True
    with Cons.prems have "a = x" by simp
    with True show ?thesis by (intro exI[of _ "[]"] exI[of _ xs]) simp
  next
    case False
    with Cons.prems have "find p xs = Some x" by simp
    from Cons.IH[OF this] obtain pre post where
      "xs = pre @ x # post" "\<forall>y\<in>set pre. \<not> p y" "p x" "update_first p f xs = pre @ f x # post"
      by blast
    with False show ?thesis
      by (intro exI[of _ "a # pre"] exI[of _ post]) simp
  qed
qed

text \<open>
  C9. On a table that already holds a checkpoint row for the source,
  \<^verbatim>\<open>update_checkpoint\<close> replaces that row, in place, by a row with the same source and
  creation time, with \<open>last_run_at\<close>, \<open>status\<close>, \<open>records_processed\<close> and \<open>updated_at\<close>
  set; with status success it sets \<open>last_success_at\<close>, clears \<open>error_message\<close> and keeps
  \<open>last_failure_at\<close>; with status failure it sets \<open>last_failure_at\<close> and
  \<open>error_message\<close> and keeps \<open>last_success_at\<close>. No row is deleted, every other row and
  every other table is unchanged.
\<close>

theorem update_checkpoint_frame:
  assumes "find (\<lambda>c. cp_source c = source_name self) (etl_checkpoints db) = Some old"
      and "update_checkpoint fault now status error_message self db = Inr db'"
  shows "\<exists>pre new post.
           etl_checkpoints db = pre @ old # post
         \<and> etl_checkpoints db' = pre @ new # post
         \<and> cp_source new = cp_source old
         \<and> cp_created_at new = cp_created_at old
         \<and> last_run_at new = Some now
         \<and> cp_status new = status
         \<and> cp_records_processed new = records_processed self
         \<and> cp_updated_at new = now
         \<and> (status = ''success'' \<longrightarrow>
               last_success_at new = Some now \<and> cp_error_message new = None
             \<and> last_failure_at new = last_failure_at old)
         \<and> (status = ''failure'' \<longrightarrow>
               last_failure_at new = Some now \<and> cp_error_message new = error_message
             \<and> last_success_at new = last_success_at old)
         \<and> coins db' = coins db \<and> etl_runs db' = etl_runs db
         \<and> raw_coingecko db' = raw_coingecko db \<and> raw_csv db' = raw_csv db"
proof -
  let ?p = "\<lambda>c. cp_source c = source_name self"
  let ?f = "touch_checkpoint now status error_message self"
  from assms have db': "db' = db\<lparr>etl_checkpoints := update_first ?p ?f (etl_checkpoints db)\<rparr>"
    by (auto simp: update_checkpoint_def split: option.splits)
  from find_update_first[OF assms(1), of ?f] obtain pre post where
    pp: "etl_checkpoints db = pre @ old # post"
        "update_first ?p ?f (etl_checkpoints db) = pre @ ?f old # post"
    by blast
  have new: "etl_checkpoints db' = pre @ ?f old # post"
    by (simp add: db' pp(2))
  have rest: "coins db' = coins db" "etl_runs db' = etl_runs db"
    "raw_coingecko db' = raw_coingecko db" "raw_csv db' = raw_csv db"
    by (simp_all add: db')
  have fields: "cp_source (?f old) = cp_source old" "cp_created_at (?f old) = cp_created_at old"
    "last_run_at (?f old) = Some now" "cp_status (?f old) = status"
    "cp_records_processed (?f old) = records_processed self" "cp_updated_at (?f old) = now"
    by (simp_all add: touch_checkpoint_def Let_def)
  have success: "last_success_at (?f old) = Some now \<and> cp_error_message (?f old) = None
             \<and> last_failure_at (?f old) = last_failure_at old" if "status = ''success''"
    using that by (simp add: touch_checkpoint_def Let_def)
  have failure: "last_failure_at (?f old) = Some now \<and> cp_error_message (?f old) = error_message
             \<and> last_success_at (?f old) = last_success_at old" if "status = ''failure''"
    using that by (simp add: touch_checkpoint_def Let_def)
  show ?thesis
    using pp(1) new rest fields success failure by blast
qed

lemma demo_update:
  "update_checkpoint None 20 ''failure'' (Some ''boom'') demo_self demo_db =
     Inr (demo_db\<lparr>etl_checkpoints :=
        [\<lparr>cp_source = ''csv'', last_run_at = Some 20, last_success_at = Some 1,
       last_failure_at = Some 20, cp_status = ''failure'', cp_records_processed = 3,
       cp_error_message = Some ''boom'', cp_created_at = 1, cp_updated_at = 20\<rparr>]\<rparr>)"
  by (simp add: update_checkpoint_def demo_db_def demo_checkpoint_def demo_self_def
      touch_checkpoint_def Let_def)

theorem update_checkpoint_frame_witness:
  "find (\<lambda>c. cp_source c = source_name demo_self) (etl_checkpoints demo_db) = Some demo_checkpoint
   \<and> update_checkpoint None 20 ''failure'' (Some ''boom'') demo_self demo_db =
     Inr (demo_db\<lparr>etl_checkpoints :=
        [\<lparr>cp_source = ''csv'', last_run_at = Some 20, last_success_at = Some 1,
       last_failure_at = Some 20, cp_status = ''failure'', cp_records_processed = 3,
       cp_error_message = Some ''boom'', cp_created_at = 1, cp_updated_at = 20\<rparr>]\<rparr>)
   \<and> length (etl_checkpoints (demo_db\<lparr>etl_checkpoints :=
        [\<lparr>cp_source = ''csv'', last_run_at = Some 20, last_success_at = Some 1,
       last_failure_at = Some 20, cp_status = ''failure'', cp_records_processed = 3,
       cp_error_message = Some ''boom'', cp_created_at = 1, cp_updated_at = 20\<rparr>]\<rparr>))
     = length (etl_checkpoints demo_db)"
proof -
  have f: "find (\<lambda>c. cp_source c = source_name demo_self) (etl_checkpoints demo_db)
           = Some demo_checkpoint"
    by (simp add: demo_db_def demo_checkpoint_def demo_self_def)
  from update_checkpoint_frame [OF f demo_update] obtain pre new post where
    "etl_checkpoints demo_db = pre @ demo_checkpoint # post"
    "etl_checkpoints (demo_db\<lparr>etl_checkpoints :=
        [\<lparr>cp_source = ''csv'', last_run_at = Some 20, last_success_at = Some 1,
       last_failure_at = Some 20, cp_status = ''failure'', cp_records_processed = 3,
       cp_error_message = Some ''boom'', cp_created_at = 1, cp_updated_at = 20\<rparr>]\<rparr>)
     = pre @ new # post"
    by blast
  then have "length (etl_checkpoints (demo_db\<lparr>etl_checkpoints :=
        [\<lparr>cp_source = ''csv'', last_run_at = Some 20, last_success_at = Some 1,
       last_failure_at = Some 20, cp_status = ''failure'', cp_records_processed = 3,
       cp_error_message = Some ''boom'', cp_created_at = 1, cp_updated_at = 20\<rparr>]\<rparr>))
     = length (etl_checkpoints demo_db)"
    by (metis length_append length_Cons)
  with f demo_update show ?thesis by blast
qed

lemma conflict_key_conflict_update [simp]:
  "conflict_key (conflict_update now v row) = conflict_key row"
  by (simp add: conflict_key_def conflict_update_def)

lemma conflict_key_insert_row [simp]: "conflict_key (insert_row now v) = conflict_key v"
  by (simp add: conflict_key_def insert_row_def)

lemma conflict_key_touch [simp]: "conflict_key (row\<lparr>updated_at := t\<rparr>) = conflict_key row"
  by (simp add: conflict_key_def)

lemma agrees_conflict_update: "agrees v (conflict_update now v row)"
  by (simp add: agrees_def conflict_update_def)

lemma agrees_insert_row: "agrees v (insert_row now v)"
  by (simp add: agrees_def insert_row_def)

lemma agrees_touch [simp]: "agrees v (row\<lparr>updated_at := t\<rparr>) = agrees v row"
  by (simp add: agrees_def)

lemma conflict_update_agrees: "agrees v row \<Longrightarrow> conflict_update now v row = row\<lparr>updated_at := now\<rparr>"
  by (simp add: agrees_def conflict_update_def)

lemma updated_at_conflict_update [simp]: "updated_at (conflict_update now v row) = now"
  by (simp add: conflict_update_def)

lemma updated_at_insert_row [simp]: "updated_at (insert_row now v) = now"
  by (simp add: insert_row_def)

lemma keys_upsert:
  "map conflict_key (upsert now v rows) =
     (if conflict_key v \<in> set (map conflict_key rows) then map conflict_key rows
      else map conflict_key rows @ [conflict_key v])"
  by (induction rows) auto

lemma keys_upsert_all:
  "distinct (map conflict_key rows) \<Longrightarrow> distinct (map conflict_key (upsert_all now vs rows))"
proof (induction vs arbitrary: rows)
  case Nil
  then show ?case by simp
next
  case (Cons v vs)
  have "distinct (map conflict_key (upsert now v rows))"
    using Cons.prems by (simp add: keys_upsert)
  then show ?case using Cons.IH by simp
qed

lemma distinct_map_ConsD: "distinct (map f (a # xs)) \<Longrightarrow> \<forall>x\<in>set xs. f x \<noteq> f a"
  by (auto simp: image_iff)

lemma filter_key_Nil_iff: "filter (\<lambda>y. f y = k) xs = [] \<longleftrightarrow> k \<notin> f ` set xs"
  by (auto simp: filter_empty_conv image_iff)

lemma map_touch_id: "\<forall>x\<in>set xs. f x \<noteq> k \<Longrightarrow> map (\<lambda>r. if f r = k then g r else r) xs = xs"
  by (induction xs) auto

lemma filter_map_key:
  "(\<And>r. f (g r) = f r) \<Longrightarrow> filter (\<lambda>r. f r = k) (map g xs) = map g (filter (\<lambda>r. f r = k) xs)"
  by (induction xs) auto

lemma upsert_present: "conflict_key v \<in> conflict_key ` set (upsert now v rows)"
  by (induction rows) auto

lemma upsert_agreed:
  "distinct (map conflict_key rows) \<Longrightarrow> agreed v (upsert now v rows) \<and> stamped now v (upsert now v rows)"
proof (induction rows)
  case Nil
  then show ?case by (simp add: agreed_def stamped_def agrees_insert_row)
next
  case (Cons row rows)
  show ?case
  proof (cases "conflict_key row = conflict_key v")
    case True
    have "\<forall>r\<in>set rows. conflict_key r \<noteq> conflict_key row"
      using Cons.prems by (rule distinct_map_ConsD)
    with True show ?thesis
      by (simp add: agreed_def stamped_def agrees_conflict_update)
  next
    case False
    with Cons show ?thesis
      by (auto simp: agreed_def stamped_def)
  qed
qed

lemma upsert_other:
  assumes "conflict_key w \<noteq> conflict_key v"
  shows "filter (\<lambda>r. conflict_key r = conflict_key w) (upsert now v rows) =
         filter (\<lambda>r. conflict_key r = conflict_key w) rows"
  using assms by (induction rows) auto

lemma upsert_all_other:
  assumes "\<forall>v\<in>set vs. conflict_key w \<noteq> conflict_key v"
  shows "filter (\<lambda>r. conflict_key r = conflict_key w) (upsert_all now vs rows) =
         filter (\<lambda>r. conflict_key r = conflict_key w) rows"
  using assms by (induction vs arbitrary: rows) (auto simp: upsert_other)

lemma agreed_filter:
  "agreed v rows \<longleftrightarrow> (\<forall>row\<in>set (filter (\<lambda>r. conflict_key r = conflict_key v) rows). agrees v row)"
  by (auto simp: agreed_def)

lemma stamped_filter:
  "stamped now v rows \<longleftrightarrow>
     (\<forall>row\<in>set (filter (\<lambda>r. conflict_key r = conflict_key v) rows). updated_at row = now)"
  by (auto simp: stamped_def)

lemma present_filter:
  "conflict_key v \<in> conflict_key ` set rows \<longleftrightarrow>
     filter (\<lambda>r. conflict_key r = conflict_key v) rows \<noteq> []"
  by (simp add: filter_key_Nil_iff)

lemma upsert_all_settled:
  assumes "distinct (map conflict_key vs)" "distinct (map conflict_key rows)" "v \<in> set vs"
  shows "agreed v (upsert_all now vs rows) \<and> stamped now v (upsert_all now vs rows)
         \<and> conflict_key v \<in> conflict_key ` set (upsert_all now vs rows)"
  using assms
proof (induction vs arbitrary: rows)
  case Nil
  then show ?case by simp
next
  case (Cons u vs)
  have d: "distinct (map conflict_key (upsert now u rows))"
    using Cons.prems(2) by (simp add: keys_upsert)
  show ?case
  proof (cases "v = u")
    case True
    have other: "\<forall>w\<in>set vs. conflict_key v \<noteq> conflict_key w"
      using Cons.prems(1) True by auto
    have eq: "filter (\<lambda>r. conflict_key r = conflict_key v) (upsert_all now (u # vs) rows) =
          filter (\<lambda>r. conflict_key r = conflict_key v) (upsert now v rows)"
      using upsert_all_other[OF other] True by simp
    show ?thesis
      unfolding agreed_filter stamped_filter present_filter eq
      using upsert_agreed[OF Cons.prems(2), of v now] upsert_present[of v now rows]
      by (simp add: agreed_filter stamped_filter present_filter)
  next
    case False
    with Cons.prems have "v \<in> set vs" "distinct (map conflict_key vs)" by auto
    from Cons.IH[OF this(2) d this(1)] show ?thesis by simp
  qed
qed

lemma upsert_again:
  assumes "distinct (map conflict_key rows)" "conflict_key v \<in> conflict_key ` set rows"
    "agreed v rows"
  shows "upsert now v rows =
         map (\<lambda>r. if conflict_key r = conflict_key v then r\<lparr>updated_at := now\<rparr> else r) rows"
  using assms
proof (induction rows)
  case Nil
  then show ?case by simp
next
  case (Cons row rows)
  show ?case
  proof (cases "conflict_key row = conflict_key v")
    case True
    have "\<forall>r\<in>set rows. conflict_key r \<noteq> conflict_key row"
      using Cons.prems(1) by (rule distinct_map_ConsD)
    with True have none: "\<forall>r\<in>set rows. conflict_key r \<noteq> conflict_key v"
      by simp
    then have "map (\<lambda>r. if conflict_key r = conflict_key v then r\<lparr>updated_at := now\<rparr> else r) rows
               = rows"
      by (rule map_touch_id)
    moreover have "agrees v row"
      using Cons.prems(3) True by (simp add: agreed_def)
    ultimately show ?thesis
      using True by (simp add: conflict_update_agrees)
  next
    case False
    have d: "distinct (map conflict_key rows)"
      using Cons.prems(1) by simp
    from Cons.prems(2) have "conflict_key v = conflict_key row
        \<or> conflict_key v \<in> conflict_key ` set rows"
      by simp
    with False have p: "conflict_key v \<in> conflict_key ` set rows"
      by metis
    have a: "agreed v rows"
      using Cons.prems(3) by (simp add: agreed_def)
    from Cons.IH[OF d p a] False show ?thesis by simp
  qed
qed


lemma touch_touch:
  fixes r :: coin
  shows "(if conflict_key (if conflict_key r = ku then r\<lparr>updated_at := now\<rparr> else r) \<in> K
          then (if conflict_key r = ku then r\<lparr>updated_at := now\<rparr> else r)\<lparr>updated_at := now\<rparr>
          else (if conflict_key r = ku then r\<lparr>updated_at := now\<rparr> else r))
       = (if conflict_key r \<in> insert ku K then r\<lparr>updated_at := now\<rparr> else r)"
  by simp

lemma map_touch_keys:
  "map conflict_key (map (\<lambda>r::coin. if conflict_key r = ku then r\<lparr>updated_at := now\<rparr> else r) rows)
     = map conflict_key rows"
  by (induction rows) simp_all

lemma agreed_map_touch:
  "agreed v rows \<Longrightarrow>
   agreed v (map (\<lambda>r::coin. if conflict_key r = ku then r\<lparr>updated_at := now\<rparr> else r) rows)"
  by (induction rows) (simp_all add: agreed_def)


lemma upsert_all_again:
  assumes "distinct (map conflict_key vs)" "distinct (map conflict_key rows)"
    "\<forall>v\<in>set vs. conflict_key v \<in> conflict_key ` set rows \<and> agreed v rows"
  shows "upsert_all now vs rows =
         map (\<lambda>r. if conflict_key r \<in> conflict_key ` set vs then r\<lparr>updated_at := now\<rparr> else r) rows"
  using assms
proof (induction vs arbitrary: rows)
  case Nil
  then show ?case by simp
next
  case (Cons u vs)
  let ?h = "\<lambda>r::coin. if conflict_key r = conflict_key u then r\<lparr>updated_at := now\<rparr> else r"
  let ?g = "\<lambda>r::coin. if conflict_key r \<in> conflict_key ` set vs then r\<lparr>updated_at := now\<rparr> else r"
  have "u \<in> set (u # vs)"
    by simp
  with Cons.prems(3) have pu: "conflict_key u \<in> conflict_key ` set rows" and au: "agreed u rows"
    by blast+
  have h: "upsert now u rows = map ?h rows"
    using Cons.prems(2) pu au by (rule upsert_again)
  have keys: "map conflict_key (map ?h rows) = map conflict_key rows"
    by (rule map_touch_keys)
  have kset: "conflict_key ` set (map ?h rows) = conflict_key ` set rows"
    by (simp only: set_map [symmetric] keys)
  have pres: "\<forall>v\<in>set vs. conflict_key v \<in> conflict_key ` set (map ?h rows) \<and> agreed v (map ?h rows)"
  proof
    fix v assume v: "v \<in> set vs"
    then have "v \<in> set (u # vs)"
      by simp
    with Cons.prems(3) have p: "conflict_key v \<in> conflict_key ` set rows" and a: "agreed v rows"
      by blast+
    from a have "agreed v (map ?h rows)"
      by (rule agreed_map_touch)
    with p kset show "conflict_key v \<in> conflict_key ` set (map ?h rows) \<and> agreed v (map ?h rows)"
      by blast
  qed
  have dvs: "distinct (map conflict_key vs)"
    using Cons.prems(1) by simp
  have drows: "distinct (map conflict_key (map ?h rows))"
    using Cons.prems(2) by (simp only: keys)
  have "upsert_all now vs (map ?h rows) = map ?g (map ?h rows)"
    using dvs drows pres by (rule Cons.IH)
  then have "upsert_all now (u # vs) rows = map (\<lambda>r. ?g (?h r)) rows"
    by (simp only: upsert_all.simps h map_map comp_def)
  also have "(\<lambda>r. ?g (?h r)) =
      (\<lambda>r. if conflict_key r \<in> conflict_key ` set (u # vs) then r\<lparr>updated_at := now\<rparr> else r)"
    by (rule ext) (simp only: touch_touch list.set image_insert)
  finally show ?case .
qed


lemma filter_key_single:
  "distinct (map f xs) \<Longrightarrow> k \<in> f ` set xs \<Longrightarrow> \<exists>x. filter (\<lambda>y. f y = k) xs = [x]"
proof (induction xs)
  case Nil
  then show ?case by simp
next
  case (Cons a xs)
  show ?case
  proof (cases "f a = k")
    case True
    with Cons.prems(1) have "filter (\<lambda>y. f y = k) xs = []"
      by (simp add: filter_key_Nil_iff)
    with True show ?thesis by simp
  next
    case False
    then have "k \<in> f ` set xs"
      using Cons.prems(2) by auto
    with Cons.IH Cons.prems(1) obtain x where "filter (\<lambda>y. f y = k) xs = [x]"
      by auto
    with False show ?thesis by simp
  qed
qed

text \<open>
  C3. On a table that respects the unique constraint on \<open>(coin_id, source)\<close>, applying
  \<^verbatim>\<open>load_normalized\<close> twice with the same batch leaves, for every record of the batch,
  exactly one row of its key after the first and after the second application; the second
  application inserts nothing (the table keeps its length) and turns the row into itself
  with \<open>updated_at\<close> set to the time of the second application, every other field,
  \<open>created_at\<close> included, unchanged. The row's \<open>updated_at\<close> was the time of the first
  application, so it advances exactly as the clock did between the two.
\<close>

theorem load_normalized_twice:
  assumes uniq: "distinct (map conflict_key (coins db))"
      and first: "load_normalized f1 now1 batch (self, db) = Inr (self1, db1)"
      and second: "load_normalized f2 now2 batch (self1, db1) = Inr (self2, db2)"
      and v: "v \<in> set batch"
  shows "(\<exists>row. filter (\<lambda>r. conflict_key r = conflict_key v) (coins db1) = [row]
              \<and> filter (\<lambda>r. conflict_key r = conflict_key v) (coins db2)
                  = [row\<lparr>updated_at := now2\<rparr>]
              \<and> updated_at row = now1)
       \<and> length (coins db2) = length (coins db1)
       \<and> coins db2 =
           map (\<lambda>r. if conflict_key r \<in> conflict_key ` set batch
                     then r\<lparr>updated_at := now2\<rparr> else r) (coins db1)"
proof -
  let ?g = "\<lambda>r::coin. if conflict_key r \<in> conflict_key ` set batch
                     then r\<lparr>updated_at := now2\<rparr> else r"
  from v have ne: "batch \<noteq> []" by auto
  from first ne have dk: "distinct (map conflict_key batch)"
    and db1: "coins db1 = upsert_all now1 batch (coins db)"
    by (auto simp: load_normalized_def split: option.splits if_splits)
  from second ne have db2: "coins db2 = upsert_all now2 batch (coins db1)"
    by (auto simp: load_normalized_def split: option.splits if_splits)
  have d1: "distinct (map conflict_key (coins db1))"
    unfolding db1 using uniq by (rule keys_upsert_all)
  have settled: "\<forall>w\<in>set batch. conflict_key w \<in> conflict_key ` set (coins db1)
                    \<and> agreed w (coins db1)"
    unfolding db1 using upsert_all_settled[OF dk uniq] by blast
  have map2: "coins db2 = map ?g (coins db1)"
    unfolding db2 using dk d1 settled by (rule upsert_all_again)
  from upsert_all_settled[OF dk uniq v, of now1]
  have pv: "conflict_key v \<in> conflict_key ` set (coins db1)" and st: "stamped now1 v (coins db1)"
    by (simp_all add: db1)
  from filter_key_single[OF d1 pv] obtain row where
    row: "filter (\<lambda>r. conflict_key r = conflict_key v) (coins db1) = [row]"
    by blast
  then have "row \<in> set (filter (\<lambda>r. conflict_key r = conflict_key v) (coins db1))"
    by simp
  then have krow: "conflict_key row = conflict_key v" and "row \<in> set (coins db1)"
    by auto
  with st have stamp: "updated_at row = now1"
    by (simp add: stamped_def)
  have "filter (\<lambda>r. conflict_key r = conflict_key v) (map ?g (coins db1)) =
        map ?g (filter (\<lambda>r. conflict_key r = conflict_key v) (coins db1))"
    by (rule filter_map_key) simp
  moreover have "?g row = row\<lparr>updated_at := now2\<rparr>"
    using krow v by simp
  ultimately have "filter (\<lambda>r. conflict_key r = conflict_key v) (coins db2)
      = [row\<lparr>updated_at := now2\<rparr>]"
    by (simp only: map2 row list.map)
  moreover have "length (coins db2) = length (coins db1)"
    by (simp only: map2 length_map)
  ultimately show ?thesis
    using row stamp map2 by blast
qed

lemma demo_first_load:
  "load_normalized None 6 [demo_coin] (demo_self, empty_db) =
     Inr (demo_self\<lparr>records_processed := 4\<rparr>, empty_db\<lparr>coins := [insert_row 6 demo_coin]\<rparr>)"
  by (simp add: load_normalized_def demo_self_def empty_db_def)

lemma demo_second_load:
  "load_normalized None 9 [demo_coin]
     (demo_self\<lparr>records_processed := 4\<rparr>, empty_db\<lparr>coins := [insert_row 6 demo_coin]\<rparr>) =
     Inr (demo_self\<lparr>records_processed := 5\<rparr>,
          empty_db\<lparr>coins := [(insert_row 6 demo_coin)\<lparr>updated_at := 9\<rparr>]\<rparr>)"
  by (simp add: load_normalized_def demo_self_def empty_db_def conflict_update_def insert_row_def
      conflict_key_def)

theorem load_normalized_twice_witness:
  "distinct (map conflict_key (coins empty_db))
   \<and> load_normalized None 6 [demo_coin] (demo_self, empty_db) =
       Inr (demo_self\<lparr>records_processed := 4\<rparr>, empty_db\<lparr>coins := [insert_row 6 demo_coin]\<rparr>)
   \<and> load_normalized None 9 [demo_coin]
         (demo_self\<lparr>records_processed := 4\<rparr>, empty_db\<lparr>coins := [insert_row 6 demo_coin]\<rparr>) =
       Inr (demo_self\<lparr>records_processed := 5\<rparr>,
            empty_db\<lparr>coins := [(insert_row 6 demo_coin)\<lparr>updated_at := 9\<rparr>]\<rparr>)
   \<and> demo_coin \<in> set [demo_coin]
   \<and> length (coins (empty_db\<lparr>coins := [(insert_row 6 demo_coin)\<lparr>updated_at := 9\<rparr>]\<rparr>)) =
       length (coins (empty_db\<lparr>coins := [insert_row 6 demo_coin]\<rparr>))"
proof -
  have d: "distinct (map conflict_key (coins empty_db))"
    by (simp add: empty_db_def)
  have m: "demo_coin \<in> set [demo_coin]"
    by simp
  from load_normalized_twice [OF d demo_first_load demo_second_load m]
  have "length (coins (empty_db\<lparr>coins := [(insert_row 6 demo_coin)\<lparr>updated_at := 9\<rparr>]\<rparr>)) =
       length (coins (empty_db\<lparr>coins := [insert_row 6 demo_coin]\<rparr>))"
    by blast
  with d m demo_first_load demo_second_load show ?thesis
    by blast
qed

section \<open>Properties of the runner\<close>

lemma run_loop_done:
  "\<not> int attempt < max_retries \<Longrightarrow>
     run_loop E max_retries backoff_factor attempt last_error st = (Inr (Exhausted last_error), st)"
  by simp

lemma run_loop_step:
  "int attempt < max_retries \<Longrightarrow>
   run_loop E max_retries backoff_factor attempt last_error (self, db, lg) =
     (case get_db_context E (Attempt attempt) (etl_body E attempt)
                   (self, db, lg @ [Starting (attempt + 1)]) of
              (Inr u, st') \<Rightarrow> (Inr Succeeded, st')
            | (Inl e, self', db', lg') \<Rightarrow>
                (if int (attempt + 1) < max_retries then
                   (case float_pow backoff_factor (attempt + 1) of
                      Inl e' \<Rightarrow> (Inl e', self', db', lg' @ [Failed (attempt + 1) e])
                    | Inr wait_time \<Rightarrow>
                        (case time_sleep E wait_time of
                           Inl e' \<Rightarrow>
                             (Inl e', self', db',
                              lg' @ [Failed (attempt + 1) e, Retrying wait_time])
                         | Inr u \<Rightarrow>
                             run_loop E max_retries backoff_factor (attempt + 1) (Some e)
                               (self', db', lg' @ [Failed (attempt + 1) e, Retrying wait_time])))
                 else
                   run_loop E max_retries backoff_factor (attempt + 1) (Some e)
                     (self', db', lg' @ [Failed (attempt + 1) e])))"
  by (subst run_loop.simps) simp

declare run_loop.simps [simp del]

lemma float_max_large: "2 ^ 64 \<le> float_max"
proof -
  have "(1::real) * 2 ^ 64 \<le> (2 ^ 53 - 1) * 2 ^ 971"
    by (rule mult_mono) (simp_all add: power_increasing)
  then show ?thesis
    by (simp add: float_max_def)
qed

lemma float_pow_small: "\<bar>x ^ n\<bar> \<le> 2 ^ 64 \<Longrightarrow> float_pow x n = Inr (x ^ n)"
  using float_max_large by (simp add: float_pow_def not_less)

lemma delay_accepted:
  assumes "delays_accepted E backoff_factor max_retries" and "int (a + 1) < max_retries"
  shows "float_pow backoff_factor (a + 1) = Inr (backoff_factor ^ (a + 1))"
    and "time_sleep E (backoff_factor ^ (a + 1)) = Inr ()"
proof -
  define x where "x = backoff_factor ^ (a + 1)"
  have "1 \<le> a + 1"
    by simp
  with assms have d: "0 \<le> x" "x \<le> float_max" "x \<le> sleep_limit E"
    unfolding delays_accepted_def x_def by blast+
  then have "\<not> float_max < \<bar>x\<bar>" "\<not> x < 0" "\<not> sleep_limit E < x"
    by simp_all
  then have "(if float_max < \<bar>x\<bar> then Inl ''(34, 'Numerical result out of range')'' else Inr x) = Inr x"
    and "time_sleep E x = Inr ()"
    by (simp_all add: time_sleep_def)
  then show "float_pow backoff_factor (a + 1) = Inr (backoff_factor ^ (a + 1))"
    and "time_sleep E (backoff_factor ^ (a + 1)) = Inr ()"
    unfolding x_def float_pow_def by blast+
qed

lemma run_loop_no_raise:
  assumes d: "delays_accepted E backoff_factor max_retries"
  shows "\<exists>x st'. run_loop E max_retries backoff_factor a le st = (Inr x, st')"
proof (induction "nat (max_retries - int a)" arbitrary: a le st)
  case 0
  then have "\<not> int a < max_retries"
    by linarith
  then have "run_loop E max_retries backoff_factor a le st = (Inr (Exhausted le), st)"
    by (rule run_loop_done)
  then show ?case
    by blast
next
  case (Suc n)
  then have a: "int a < max_retries"
    by linarith
  obtain self db lg where st: "st = (self, db, lg)"
    by (cases st)
  obtain r self' db' lg' where g: "get_db_context E (Attempt a) (etl_body E a)
                   (self, db, lg @ [Starting (a + 1)]) = (r, self', db', lg')"
    by (metis prod_cases4)
  show ?case
  proof (cases r)
    case (Inr u)
    have "run_loop E max_retries backoff_factor a le (self, db, lg) = (Inr Succeeded, self', db', lg')"
      by (subst run_loop_step[OF a], simp only: g Inr) simp
    then show ?thesis
      unfolding st by blast
  next
    case (Inl e)
    show ?thesis
    proof (cases "int (a + 1) < max_retries")
      case True
      have n: "n = nat (max_retries - int (a + 1))"
        using Suc.hyps(2) by linarith
      have "run_loop E max_retries backoff_factor a le (self, db, lg) =
            run_loop E max_retries backoff_factor (a + 1) (Some e)
              (self', db', lg' @ [Failed (a + 1) e, Retrying (backoff_factor ^ (a + 1))])"
        by (subst run_loop_step[OF a])
           (simp only: g Inl delay_accepted[OF d True] True sum.case prod.case if_True)
      with Suc.hyps(1)[OF n] show ?thesis
        unfolding st by simp
    next
      case False
      have "run_loop E max_retries backoff_factor a le (self, db, lg) =
            (Inr (Exhausted (Some e)), self', db', lg' @ [Failed (a + 1) e])"
        by (subst run_loop_step[OF a])
           (simp only: g Inl False sum.case prod.case if_False run_loop_done[OF False])
      then show ?thesis
        unfolding st by blast
    qed
  qed
qed

lemma run_exhausted:
  "run_loop E max_retries backoff_factor 0 None st = (Inr (Exhausted last_error), st1) \<Longrightarrow>
     fst (run E max_retries backoff_factor st) = Inr False"
  by (simp add: run_def split: prod.splits sum.splits)

lemma run_finalize_failed:
  "run_loop E max_retries backoff_factor 0 None st = (Inr (Exhausted last_error), st1) \<Longrightarrow>
   get_db_context E Finalize (finalize_body E last_error) st1 = (Inl e, self2, db2, lg2) \<Longrightarrow>
     run E max_retries backoff_factor st = (Inr False, self2, db2, lg2 @ [CheckpointFailed e])"
  by (simp add: run_def)

lemma run_no_raise:
  assumes "delays_accepted E backoff_factor max_retries"
  shows "\<exists>b st'. run E max_retries backoff_factor st = (Inr b, st')"
proof -
  from run_loop_no_raise[OF assms] obtain x st1 where
    l: "run_loop E max_retries backoff_factor 0 None st = (Inr x, st1)"
    by blast
  show ?thesis
  proof (cases x)
    case Succeeded
    with l have "run E max_retries backoff_factor st = (Inr True, st1)"
      by (simp add: run_def)
    then show ?thesis by blast
  next
    case (Exhausted last_error)
    obtain r self2 db2 lg2 where
      g: "get_db_context E Finalize (finalize_body E last_error) st1 = (r, self2, db2, lg2)"
      by (metis prod_cases4)
    show ?thesis
    proof (cases r)
      case (Inl e)
      with l Exhausted g
      have "run E max_retries backoff_factor st = (Inr False, self2, db2, lg2 @ [CheckpointFailed e])"
        by (simp add: run_def)
      then show ?thesis by blast
    next
      case (Inr u)
      with l Exhausted g
      have "run E max_retries backoff_factor st = (Inr False, self2, db2, lg2)"
        by (simp add: run_def)
      then show ?thesis by blast
    qed
  qed
qed

lemmas run_eval = run_def run_loop_step run_loop_done get_db_context_def time_sleep_def
  float_pow_small etl_body_def after_error_def finalize_body_def update_checkpoint_def
  create_run_record_def flush_accepted_def Let_def

lemma all_raising_run:
  "run all_raising 3 2 (demo_self, empty_db, []) =
     (Inr False, demo_self, empty_db,
      [Starting 1, Failed 1 ''database is down'', Retrying 2,
       Starting 2, Failed 2 ''database is down'', Retrying 4,
       Starting 3, Failed 3 ''database is down'', CheckpointFailed ''database is down''])"
  by (simp add: run_eval all_raising_def)

text \<open>
  C2. Every call of a pipeline method and of the session is inside the \<^verbatim>\<open>try\<close> of the
  loop, and the finalizing transaction has a handler of its own that logs and goes on: as
  long as the back-off delays are accepted, a run returns a boolean whatever those calls
  do (\<open>run_no_raise\<close>, and \<open>all_raising_run\<close> for a run in which all of them raise). The
  back-off itself is not guarded: \<^verbatim>\<open>backoff_factor ** attempt\<close> and \<^verbatim>\<open>time.sleep\<close> are
  evaluated inside the \<^verbatim>\<open>except\<close> handler, and an exception of theirs leaves \<^verbatim>\<open>run\<close>.
  With two retries and a first attempt that fails, a back-off factor of \<open>10 ^ 10\<close> makes
  \<^verbatim>\<open>time.sleep\<close> raise \<^verbatim>\<open>OverflowError\<close> and a factor of \<open>- 1\<close> makes it raise
  \<^verbatim>\<open>ValueError\<close>: the caller gets the exception, no boolean, and nothing is written.
\<close>

theorem sleep_error_leaves_run:
  "run extract_fails 2 10000000000 (demo_self, empty_db, []) =
     (Inl ''timestamp too large to convert to C _PyTime_t'', demo_self, empty_db,
      [Starting 1, Extracting, Failed 1 ''connection refused'', Retrying 10000000000])
   \<and> run all_raising 2 (- 1) (demo_self, empty_db, []) =
     (Inl ''sleep length must be non-negative'', demo_self, empty_db,
      [Starting 1, Failed 1 ''database is down'', Retrying (- 1)])"
  by (simp add: run_eval extract_fails_def all_raising_def)

lemma find_update_first_same:
  "(\<And>x. p x \<Longrightarrow> p (f x)) \<Longrightarrow> find p (update_first p f xs) = map_option f (find p xs)"
  by (induction xs) simp_all

lemma find_append_new: "find p xs = None \<Longrightarrow> p y \<Longrightarrow> find p (xs @ [y]) = Some y"
  by (induction xs) (simp_all split: if_splits)

lemma cp_source_touch [simp]:
  "cp_source (touch_checkpoint now status err self c) = cp_source c"
  by (simp add: touch_checkpoint_def Let_def)

lemma update_checkpoint_failure:
  "\<exists>db1 c. update_checkpoint None now ''failure'' err self db = Inr db1
      \<and> checkpoint_of self db1 = Some c
      \<and> cp_status c = ''failure'' \<and> cp_error_message c = err \<and> last_failure_at c = Some now
      \<and> coins db1 = coins db \<and> etl_runs db1 = etl_runs db
      \<and> raw_coingecko db1 = raw_coingecko db \<and> raw_csv db1 = raw_csv db"
proof (cases "find (\<lambda>c. cp_source c = source_name self) (etl_checkpoints db)")
  case None
  then show ?thesis
    by (simp add: update_checkpoint_def checkpoint_of_def find_append_new new_checkpoint_def)
next
  case (Some old)
  then show ?thesis
    by (simp add: update_checkpoint_def checkpoint_of_def find_update_first_same)
       (simp add: touch_checkpoint_def Let_def)
qed

lemma create_run_record_failure:
  "\<exists>db2 r. create_run_record None now ''failure'' err self db1 = Inr db2
      \<and> etl_runs db2 = etl_runs db1 @ [r]
      \<and> run_id r = self_run_id self \<and> run_source r = source_name self
      \<and> run_status r = ''failure'' \<and> run_error_message r = err
      \<and> etl_checkpoints db2 = etl_checkpoints db1
      \<and> coins db2 = coins db1
      \<and> raw_coingecko db2 = raw_coingecko db1 \<and> raw_csv db2 = raw_csv db1"
  by (simp add: create_run_record_def Let_def)

lemma runs_of_fresh: "runs_of self db = [] \<longleftrightarrow> self_run_id self \<notin> run_id ` set (etl_runs db)"
  by (force simp: runs_of_def filter_empty_conv)

lemma flush_one:
  "etl_runs session = etl_runs db @ [r] \<Longrightarrow>
     flush_accepted db session \<longleftrightarrow> run_id r \<notin> run_id ` set (etl_runs db)"
  by (simp add: flush_accepted_def)

text \<open>The body of the finalizing transaction either raises or yields tables in which the
  failure is recorded, provided the run id is new.\<close>

lemma finalize_body_cases:
  "(\<exists>e. finalize_body E err self lg db = (Inl e, self, lg))
   \<or> (\<exists>session r. finalize_body E err self lg db = (Inr session, self, lg)
         \<and> etl_runs session = etl_runs db @ [r] \<and> run_id r = self_run_id self
         \<and> (runs_of self db = [] \<longrightarrow> failure_recorded self err db session))"
proof (cases "db_fault E Finalize Query")
  case (Some e)
  then show ?thesis
    by (simp add: finalize_body_def update_checkpoint_def)
next
  case q: None
  let ?now = "utcnow E Finalize"
  from update_checkpoint_failure[of ?now err self db] obtain db1 c where
    1: "update_checkpoint None ?now ''failure'' err self db = Inr db1"
      "checkpoint_of self db1 = Some c"
      "cp_status c = ''failure''" "cp_error_message c = err"
      "coins db1 = coins db" "etl_runs db1 = etl_runs db"
      "raw_coingecko db1 = raw_coingecko db" "raw_csv db1 = raw_csv db"
    by blast
  show ?thesis
  proof (cases "db_fault E Finalize Add")
    case (Some e)
    then show ?thesis
      by (simp add: finalize_body_def q 1(1) create_run_record_def)
  next
    case a: None
    from create_run_record_failure[of ?now err self db1] obtain db2 r where
      2: "create_run_record None ?now ''failure'' err self db1 = Inr db2"
        "etl_runs db2 = etl_runs db1 @ [r]"
        "run_id r = self_run_id self"
        "run_status r = ''failure''" "run_error_message r = err"
        "etl_checkpoints db2 = etl_checkpoints db1"
        "coins db2 = coins db1"
        "raw_coingecko db2 = raw_coingecko db1" "raw_csv db2 = raw_csv db1"
      by blast
    have body: "finalize_body E err self lg db = (Inr db2, self, lg)"
      by (simp add: finalize_body_def q a 1(1) 2(1))
    have cp: "checkpoint_of self db2 = Some c"
      using 1(2) 2(6) by (simp add: checkpoint_of_def)
    have runs: "runs_of self db = [] \<Longrightarrow> runs_of self db2 = [r]"
      using 2(2,3) 1(6) by (simp add: runs_of_def)
    have "runs_of self db = [] \<Longrightarrow> failure_recorded self err db db2"
      using cp runs 1(3,4,5,7,8) 2(4,5,7,8,9) by (simp add: failure_recorded_def)
    with body 2(2,3) 1(6) show ?thesis
      by simp
  qed
qed

lemma finalize_cases:
  "\<exists>r db2. get_db_context E Finalize (finalize_body E err) (self, db, lg) = (r, self, db2, lg)
     \<and> (db2 = db \<or> failure_recorded self err db db2)
     \<and> (db_healthy E Finalize \<and> runs_of self db = [] \<longrightarrow>
          r = Inr () \<and> failure_recorded self err db db2)"
proof (cases "db_fault E Finalize OpenSession")
  case (Some e)
  then have "get_db_context E Finalize (finalize_body E err) (self, db, lg) = (Inl e, self, db, lg)"
    by (simp add: get_db_context_def)
  moreover have "\<not> db_healthy E Finalize"
    using Some by (auto simp: db_healthy_def)
  ultimately show ?thesis
    by simp
next
  case o: None
  from finalize_body_cases[of E err self lg db] show ?thesis
  proof (elim disjE exE conjE)
    fix e
    assume b: "finalize_body E err self lg db = (Inl e, self, lg)"
    then have g: "get_db_context E Finalize (finalize_body E err) (self, db, lg) =
          (Inl (after_error E Finalize e), self, db, lg)"
      by (simp add: get_db_context_def o)
    have "\<not> (db_healthy E Finalize \<and> runs_of self db = [])"
    proof
      assume h: "db_healthy E Finalize \<and> runs_of self db = []"
      then have "db_fault E Finalize Query = None" "db_fault E Finalize Add = None"
        by (simp_all add: db_healthy_def)
      with b show False
        by (simp add: finalize_body_def update_checkpoint_def create_run_record_def Let_def
            split: option.splits)
    qed
    with g show ?thesis
      by simp
  next
    fix session r
    assume b: "finalize_body E err self lg db = (Inr session, self, lg)"
      and rs: "etl_runs session = etl_runs db @ [r]" "run_id r = self_run_id self"
      and rec: "runs_of self db = [] \<longrightarrow> failure_recorded self err db session"
    have fl: "flush_accepted db session \<longleftrightarrow> runs_of self db = []"
      using flush_one[OF rs(1)] rs(2) by (simp add: runs_of_fresh)
    show ?thesis
    proof (cases "db_fault E Finalize Commit = None \<and> runs_of self db = []")
      case False
      then have "\<exists>e. get_db_context E Finalize (finalize_body E err) (self, db, lg) =
          (Inl e, self, db, lg)"
        by (auto simp: get_db_context_def o b fl split: option.splits)
      moreover have "\<not> (db_healthy E Finalize \<and> runs_of self db = [])"
        using False by (auto simp: db_healthy_def)
      ultimately show ?thesis
        by auto
    next
      case True
      then have "get_db_context E Finalize (finalize_body E err) (self, db, lg) =
          (case db_fault E Finalize Close of Some e \<Rightarrow> Inl e | None \<Rightarrow> Inr (), self, session, lg)"
        by (simp add: get_db_context_def o b fl split: option.splits)
      moreover have "failure_recorded self err db session"
        using True rec by simp
      moreover have "db_healthy E Finalize \<Longrightarrow> db_fault E Finalize Close = None"
        by (simp add: db_healthy_def)
      ultimately show ?thesis
        by auto
    qed
  qed
qed

lemma attempts_append [simp]: "attempts (xs @ ys) = attempts xs @ attempts ys"
  by (simp add: attempts_def List.map_filter_def)

lemma attempts_Nil [simp]: "attempts [] = []"
  by (simp add: attempts_def List.map_filter_def)

lemma attempts_Cons [simp]:
  "attempts (ev # lg) = (case attempt_of ev of Some k \<Rightarrow> k # attempts lg | None \<Rightarrow> attempts lg)"
  by (simp add: attempts_def List.map_filter_def split: option.splits)

lemma attempt_fails:
  assumes "p_extract E a = Inl e"
  shows "\<exists>e' lgx. get_db_context E (Attempt a) (etl_body E a) (self, db, lg) =
           (Inl e', self, db, lg @ lgx)
         \<and> attempts lgx = [] \<and> (db_healthy E (Attempt a) \<longrightarrow> e' = e)"
proof (cases "db_fault E (Attempt a) OpenSession")
  case (Some e0)
  then have "get_db_context E (Attempt a) (etl_body E a) (self, db, lg) = (Inl e0, self, db, lg @ [])"
    by (simp add: get_db_context_def)
  moreover have "\<not> db_healthy E (Attempt a)"
    using Some by (auto simp: db_healthy_def)
  ultimately show ?thesis
    by (intro exI[of _ e0] exI[of _ "[]"]) simp
next
  case None
  then have "get_db_context E (Attempt a) (etl_body E a) (self, db, lg) =
      (Inl (after_error E (Attempt a) e), self, db, lg @ [Extracting])"
    by (simp add: get_db_context_def etl_body_def Let_def assms)
  moreover have "db_healthy E (Attempt a) \<Longrightarrow> after_error E (Attempt a) e = e"
    by (simp add: db_healthy_def after_error_def)
  ultimately show ?thesis
    by (intro exI[of _ "after_error E (Attempt a) e"] exI[of _ "[Extracting]"]) simp
qed

lemma run_loop_all_fail:
  assumes fails: "\<forall>k. int k < max_retries \<longrightarrow> (\<exists>e. p_extract E k = Inl e)"
      and d: "delays_accepted E backoff_factor max_retries"
      and a: "int a < max_retries"
  shows "\<exists>e lgx. run_loop E max_retries backoff_factor a le (self, db, lg) =
            (Inr (Exhausted (Some e)), self, db, lg @ lgx @ [Failed (nat max_retries) e])
       \<and> attempts lgx = [a + 1..<nat max_retries + 1]
       \<and> (db_healthy E (Attempt (nat max_retries - 1)) \<longrightarrow>
            p_extract E (nat max_retries - 1) = Inl e)"
  using a
proof (induction "nat max_retries - Suc a" arbitrary: a le lg)
  case 0
  then have last: "a = nat max_retries - 1" "a + 1 = nat max_retries"
    and stop: "\<not> int (a + 1) < max_retries"
    by linarith+
  from fails "0.prems" obtain e0 where e0: "p_extract E a = Inl e0"
    by blast
  from attempt_fails[OF e0, of self db "lg @ [Starting (a + 1)]"] obtain e' lgx0 where
    g: "get_db_context E (Attempt a) (etl_body E a) (self, db, lg @ [Starting (a + 1)]) =
           (Inl e', self, db, (lg @ [Starting (a + 1)]) @ lgx0)"
    and lgx0: "attempts lgx0 = []" and h: "db_healthy E (Attempt a) \<longrightarrow> e' = e0"
    by blast
  have "run_loop E max_retries backoff_factor a le (self, db, lg) =
        (Inr (Exhausted (Some e')), self, db,
         ((lg @ [Starting (a + 1)]) @ lgx0) @ [Failed (a + 1) e'])"
    by (subst run_loop_step[OF "0.prems"])
       (simp only: g stop sum.case prod.case if_False run_loop_done[OF stop])
  then have r: "run_loop E max_retries backoff_factor a le (self, db, lg) =
        (Inr (Exhausted (Some e')), self, db,
         lg @ ([Starting (a + 1)] @ lgx0) @ [Failed (nat max_retries) e'])"
    using last(2) by simp
  have "[a + 1..<nat max_retries + 1] = [a + 1]"
    using last(2) by (simp add: upt_conv_Cons)
  then have at: "attempts ([Starting (a + 1)] @ lgx0) = [a + 1..<nat max_retries + 1]"
    using lgx0 by simp
  have "db_healthy E (Attempt (nat max_retries - 1)) \<longrightarrow> p_extract E (nat max_retries - 1) = Inl e'"
    using h e0 last(1) by auto
  with r at show ?case
    by blast
next
  case (Suc n)
  then have again: "int (a + 1) < max_retries"
    by linarith
  have n: "n = nat max_retries - Suc (a + 1)"
    using Suc.hyps(2) by linarith
  from fails Suc.prems obtain e0 where e0: "p_extract E a = Inl e0"
    by blast
  from attempt_fails[OF e0, of self db "lg @ [Starting (a + 1)]"] obtain e' lgx0 where
    g: "get_db_context E (Attempt a) (etl_body E a) (self, db, lg @ [Starting (a + 1)]) =
           (Inl e', self, db, (lg @ [Starting (a + 1)]) @ lgx0)"
    and lgx0: "attempts lgx0 = []"
    by blast
  define lg2 where "lg2 = ((lg @ [Starting (a + 1)]) @ lgx0) @
                      [Failed (a + 1) e', Retrying (backoff_factor ^ (a + 1))]"
  have step: "run_loop E max_retries backoff_factor a le (self, db, lg) =
        run_loop E max_retries backoff_factor (a + 1) (Some e') (self, db, lg2)"
    unfolding lg2_def
    by (subst run_loop_step[OF Suc.prems])
       (simp only: g delay_accepted[OF d again] again sum.case prod.case if_True)
  from Suc.hyps(1)[OF n again, of "Some e'" lg2] obtain e lgx where
    r: "run_loop E max_retries backoff_factor (a + 1) (Some e') (self, db, lg2) =
            (Inr (Exhausted (Some e)), self, db, lg2 @ lgx @ [Failed (nat max_retries) e])"
    and at: "attempts lgx = [a + 1 + 1..<nat max_retries + 1]"
    and h: "db_healthy E (Attempt (nat max_retries - 1)) \<longrightarrow>
            p_extract E (nat max_retries - 1) = Inl e"
    by blast
  define new where "new = ([Starting (a + 1)] @ lgx0 @
                      [Failed (a + 1) e', Retrying (backoff_factor ^ (a + 1))]) @ lgx"
  have "[a + 1..<nat max_retries + 1] = (a + 1) # [a + 1 + 1..<nat max_retries + 1]"
    using again by (simp add: upt_conv_Cons)
  then have at': "attempts new = [a + 1..<nat max_retries + 1]"
    using lgx0 at by (simp add: new_def)
  have "lg2 @ lgx @ [Failed (nat max_retries) e] = lg @ new @ [Failed (nat max_retries) e]"
    by (simp add: lg2_def new_def)
  with step r have "run_loop E max_retries backoff_factor a le (self, db, lg) =
            (Inr (Exhausted (Some e)), self, db, lg @ new @ [Failed (nat max_retries) e])"
    by simp
  with at' h show ?case
    by blast
qed

lemma get_db_context_same_faults:
  assumes "db_fault E' = db_fault E"
  shows "get_db_context E' ph body st = get_db_context E ph body st"
  by (simp only: get_db_context_def after_error_def assms)

lemma finalize_body_same:
  assumes "db_fault E' = db_fault E" "utcnow E' = utcnow E"
  shows "finalize_body E' last_error = finalize_body E last_error"
  by (intro ext) (simp only: finalize_body_def assms)

lemma run_after_loop:
  assumes l: "run_loop E max_retries backoff_factor 0 None (self, db, lg) =
                (Inr (Exhausted err), self, db, lg1)"
  shows "\<exists>db' fin. run E max_retries backoff_factor (self, db, lg) = (Inr False, self, db', lg1 @ fin)
       \<and> (fin = [] \<or> (\<exists>e. fin = [CheckpointFailed e]))
       \<and> (db' = db \<or> failure_recorded self err db db')
       \<and> (db_healthy E Finalize \<and> runs_of self db = [] \<longrightarrow>
            fin = [] \<and> failure_recorded self err db db')"
proof -
  from finalize_cases[of E err self db lg1] obtain r db2 where
    g: "get_db_context E Finalize (finalize_body E err) (self, db, lg1) = (r, self, db2, lg1)"
    and w: "db2 = db \<or> failure_recorded self err db db2"
    and h: "db_healthy E Finalize \<and> runs_of self db = [] \<longrightarrow>
          r = Inr () \<and> failure_recorded self err db db2"
    by blast
  show ?thesis
  proof (cases r)
    case (Inl e)
    then have "run E max_retries backoff_factor (self, db, lg) =
        (Inr False, self, db2, lg1 @ [CheckpointFailed e])"
      by (simp add: run_def l g)
    moreover have "\<not> (db_healthy E Finalize \<and> runs_of self db = [])"
      using h Inl by auto
    ultimately show ?thesis
      using w by blast
  next
    case (Inr u)
    then have "run E max_retries backoff_factor (self, db, lg) = (Inr False, self, db2, lg1 @ [])"
      by (simp add: run_def l g)
    then show ?thesis
      using w h by blast
  qed
qed

text \<open>
  C1, as amended. For every \<open>max_retries \<ge> 1\<close> and every pipeline whose extract fails on
  every attempt, when every back-off delay \<open>backoff_factor ^ k\<close> with \<open>1 \<le> k < max_retries\<close>
  is accepted by the float power and by \<^verbatim>\<open>time.sleep\<close> (it is not negative and not too
  large), a run makes exactly \<open>max_retries\<close> attempts, numbered 1 to \<open>max_retries\<close>, and
  returns false, whatever the session does. The error \<open>e\<close> of the last attempt is the one
  logged for it, and it is the error of extract when the session of that attempt raises
  nothing. The finalizing transaction is all or nothing: either the tables are as before,
  or the checkpoint of the source has status failure and error message \<open>e\<close>, there is
  exactly one run record for the run id, with status failure and error message \<open>e\<close>, and
  the normalized and raw tables are as before. The second is the case when the session
  raises nothing while finalizing and the run id is not yet in the run table.
\<close>

theorem run_extract_always_fails:
  assumes "1 \<le> max_retries"
      and "\<forall>k. int k < max_retries \<longrightarrow> (\<exists>e. p_extract E k = Inl e)"
      and "delays_accepted E backoff_factor max_retries"
  shows "\<exists>db' new e.
           run E max_retries backoff_factor (self, db, lg) = (Inr False, self, db', lg @ new)
         \<and> attempts new = [1..<nat max_retries + 1]
         \<and> Failed (nat max_retries) e \<in> set new
         \<and> (db_healthy E (Attempt (nat max_retries - 1)) \<longrightarrow>
              p_extract E (nat max_retries - 1) = Inl e)
         \<and> (db' = db \<or> failure_recorded self (Some e) db db')
         \<and> (db_healthy E Finalize \<and> runs_of self db = [] \<longrightarrow>
              failure_recorded self (Some e) db db')"
proof -
  have a: "int 0 < max_retries"
    using assms(1) by simp
  from run_loop_all_fail[OF assms(2,3) a, of None self db lg] obtain e lgx where
    l: "run_loop E max_retries backoff_factor 0 None (self, db, lg) =
            (Inr (Exhausted (Some e)), self, db, lg @ lgx @ [Failed (nat max_retries) e])"
    and at: "attempts lgx = [0 + 1..<nat max_retries + 1]"
    and h: "db_healthy E (Attempt (nat max_retries - 1)) \<longrightarrow>
            p_extract E (nat max_retries - 1) = Inl e"
    by blast
  from run_after_loop[OF l] obtain db' fin where
    r: "run E max_retries backoff_factor (self, db, lg) =
          (Inr False, self, db', (lg @ lgx @ [Failed (nat max_retries) e]) @ fin)"
    and fin: "fin = [] \<or> (\<exists>e. fin = [CheckpointFailed e])"
    and w: "db' = db \<or> failure_recorded self (Some e) db db'"
    and f: "db_healthy E Finalize \<and> runs_of self db = [] \<longrightarrow>
            fin = [] \<and> failure_recorded self (Some e) db db'"
    by blast
  define new where "new = lgx @ [Failed (nat max_retries) e] @ fin"
  have 1: "run E max_retries backoff_factor (self, db, lg) = (Inr False, self, db', lg @ new)"
    using r by (simp add: new_def)
  have 2: "attempts new = [1..<nat max_retries + 1]"
    using at fin by (auto simp: new_def)
  have 3: "Failed (nat max_retries) e \<in> set new"
    by (simp add: new_def)
  from 1 2 3 h w f show ?thesis
    by blast
qed

text \<open>The delays of the defaults, 3 retries and factor 2, are 2 and 4 seconds.\<close>

lemma default_delays:
  assumes "4 \<le> sleep_limit E"
  shows "delays_accepted E 2 3"
  unfolding delays_accepted_def
proof (intro allI impI)
  fix k :: nat
  assume "1 \<le> k \<and> int k < 3"
  then have "k = 1 \<or> k = 2"
    by linarith
  then have "(2::real) ^ k \<le> 4" "(0::real) \<le> 2 ^ k"
    by auto
  moreover have "(4::real) \<le> float_max"
    using float_max_large by simp
  ultimately show "(0::real) \<le> 2 ^ k \<and> 2 ^ k \<le> float_max \<and> 2 ^ k \<le> sleep_limit E"
    using assms by linarith
qed

lemma extract_fails_delays: "delays_accepted extract_fails 2 3"
  by (rule default_delays) (simp add: extract_fails_def)

lemma extract_fails_healthy: "db_healthy extract_fails ph"
  by (simp add: db_healthy_def extract_fails_def)

lemma demo_fresh: "runs_of demo_self empty_db = []"
  by (simp add: runs_of_def empty_db_def)

theorem run_extract_always_fails_witness:
  "(1::int) \<le> 3
   \<and> p_extract extract_fails 0 = Inl ''connection refused''
   \<and> p_extract extract_fails 1 = Inl ''connection refused''
   \<and> p_extract extract_fails 2 = Inl ''connection refused''
   \<and> delays_accepted extract_fails 2 3
   \<and> db_healthy extract_fails Finalize
   \<and> runs_of demo_self empty_db = []
   \<and> fst (run extract_fails 3 2 (demo_self, empty_db, [])) = Inr False
   \<and> attempts (snd (snd (snd (run extract_fails 3 2 (demo_self, empty_db, []))))) = [1, 2, 3]
   \<and> failure_recorded demo_self (Some ''connection refused'') empty_db
        (fst (snd (snd (run extract_fails 3 2 (demo_self, empty_db, [])))))"
proof -
  have f: "\<forall>k. int k < 3 \<longrightarrow> (\<exists>e. p_extract extract_fails k = Inl e)"
    by (simp add: extract_fails_def)
  from run_extract_always_fails [of 3 extract_fails 2 demo_self empty_db "[]",
      OF _ f extract_fails_delays]
  obtain db' new e where
    r: "run extract_fails 3 2 (demo_self, empty_db, []) = (Inr False, demo_self, db', [] @ new)"
    and at: "attempts new = [1..<nat 3 + 1]"
    and e: "db_healthy extract_fails (Attempt (nat 3 - 1)) \<longrightarrow>
              p_extract extract_fails (nat 3 - 1) = Inl e"
    and w: "db_healthy extract_fails Finalize \<and> runs_of demo_self empty_db = [] \<longrightarrow>
              failure_recorded demo_self (Some e) empty_db db'"
    by auto
  have "p_extract extract_fails (nat 3 - 1) = Inl e"
    using e extract_fails_healthy by blast
  then have e': "e = ''connection refused''"
    by (simp add: extract_fails_def)
  have rec: "failure_recorded demo_self (Some ''connection refused'') empty_db db'"
    using w extract_fails_healthy demo_fresh e' by blast
  have "[1..<nat 3 + 1] = [1, 2, 3]"
    by (simp add: upt_conv_Cons)
  with at have at': "attempts new = [1, 2, 3]"
    by simp
  have p: "p_extract extract_fails k = Inl ''connection refused''" for k
    by (simp add: extract_fails_def)
  show ?thesis
    using r at' rec extract_fails_delays extract_fails_healthy demo_fresh p by simp
qed

text \<open>
  C1 as stated fails in three ways. When the commit of the finalizing transaction fails,
  the run returns false but the tables are as before: no checkpoint with status failure,
  no run record. When the run table already has a record of the run id (here one with
  status success), the commit is refused and again nothing is written. And with a
  negative back-off factor, \<open>max_retries = 3\<close> and an extract that always fails, the run
  makes one attempt, then raises from \<^verbatim>\<open>time.sleep\<close>.
\<close>

theorem extract_fails_without_checkpoint:
  "run commit_fails 1 2 (demo_self, empty_db, []) =
     (Inr False, demo_self, empty_db,
      [Starting 1, Extracting, Failed 1 ''connection refused'',
       CheckpointFailed ''commit failed''])
   \<and> run extract_fails 1 2 (demo_self, db_with_run, []) =
     (Inr False, demo_self, db_with_run,
      [Starting 1, Extracting, Failed 1 ''connection refused'',
       CheckpointFailed ''duplicate key value violates unique constraint''])
   \<and> run extract_fails 3 (- 2) (demo_self, empty_db, []) =
     (Inl ''sleep length must be non-negative'', demo_self, empty_db,
      [Starting 1, Extracting, Failed 1 ''connection refused'', Retrying (- 2)])"
  by (simp add: run_eval extract_fails_def commit_fails_def empty_db_def db_with_run_def
      demo_self_def)

text \<open>
  C8, as amended. With \<open>max_retries \<le> 0\<close> the loop makes no attempt: nothing is logged but
  possibly the failure of the finalizing transaction, and the result is the same whatever
  extract, transform and \<^verbatim>\<open>load_raw\<close> are, so none of them is consulted. The run returns
  false. The finalizing transaction is all or nothing: either the tables are as before, or
  the checkpoint has status failure and there is exactly one run record for the run id,
  with status failure, both with a null error message. The second is the case when the
  session raises nothing while finalizing and the run id is not yet in the run table.
\<close>

theorem run_without_attempts:
  assumes "max_retries \<le> 0"
  shows "\<exists>db' new.
           run E max_retries backoff_factor (self, db, lg) = (Inr False, self, db', lg @ new)
         \<and> (new = [] \<or> (\<exists>e. new = [CheckpointFailed e]))
         \<and> run (E\<lparr>p_extract := ex, p_load_raw := lr, p_transform := tr\<rparr>)
               max_retries backoff_factor (self, db, lg)
             = run E max_retries backoff_factor (self, db, lg)
         \<and> (db' = db \<or> failure_recorded self None db db')
         \<and> (db_healthy E Finalize \<and> runs_of self db = [] \<longrightarrow>
              new = [] \<and> failure_recorded self None db db')"
proof -
  have stop: "\<not> int 0 < max_retries"
    using assms(1) by simp
  have l: "run_loop E' max_retries backoff_factor 0 None (self, db, lg) =
            (Inr (Exhausted None), self, db, lg)" for E'
    using stop by (rule run_loop_done)
  have same: "run (E\<lparr>p_extract := ex, p_load_raw := lr, p_transform := tr\<rparr>)
               max_retries backoff_factor (self, db, lg)
             = run E max_retries backoff_factor (self, db, lg)"
  proof -
    let ?E = "E\<lparr>p_extract := ex, p_load_raw := lr, p_transform := tr\<rparr>"
    have "finalize_body ?E None = finalize_body E None"
      by (rule finalize_body_same) simp_all
    moreover have "get_db_context ?E Finalize (finalize_body E None) (self, db, lg) =
        get_db_context E Finalize (finalize_body E None) (self, db, lg)"
      by (rule get_db_context_same_faults) simp
    ultimately show ?thesis
      by (simp add: run_def l)
  qed
  from run_after_loop[OF l] same show ?thesis
    by blast
qed

theorem run_without_attempts_witness:
  "(0::int) \<le> 0 \<and> db_healthy extract_fails Finalize \<and> runs_of demo_self empty_db = []
   \<and> fst (run extract_fails 0 2 (demo_self, empty_db, [])) = Inr False
   \<and> snd (snd (snd (run extract_fails 0 2 (demo_self, empty_db, [])))) = []
   \<and> failure_recorded demo_self None empty_db
        (fst (snd (snd (run extract_fails 0 2 (demo_self, empty_db, [])))))"
proof -
  from run_without_attempts [where max_retries = 0 and E = extract_fails and backoff_factor = 2
      and self = demo_self and db = empty_db and lg = "[]" and ex = "p_extract always_succeeds"
      and lr = "p_load_raw always_succeeds" and tr = "p_transform always_succeeds"]
  obtain db' new where
    r: "run extract_fails 0 2 (demo_self, empty_db, []) = (Inr False, demo_self, db', [] @ new)"
    and w: "db_healthy extract_fails Finalize \<and> runs_of demo_self empty_db = [] \<longrightarrow>
              new = [] \<and> failure_recorded demo_self None empty_db db'"
    by auto
  from w extract_fails_healthy demo_fresh have "new = []" "failure_recorded demo_self None empty_db db'"
    by blast+
  with r extract_fails_healthy demo_fresh show ?thesis
    by simp
qed

text \<open>
  C8 as stated fails when the finalizing transaction does: with \<open>max_retries = 0\<close> and a
  commit that raises, the run returns false and has written neither checkpoint nor run
  record.
\<close>

theorem no_attempts_without_checkpoint:
  "run commit_fails 0 2 (demo_self, empty_db, []) =
     (Inr False, demo_self, empty_db, [CheckpointFailed ''commit failed''])"
  by (simp add: run_eval commit_fails_def empty_db_def demo_self_def)

lemma extract_fails_run:
  "run extract_fails 3 2 (demo_self, empty_db, []) =
     (Inr False, demo_self,
      empty_db\<lparr>etl_checkpoints :=
         [new_checkpoint 50 ''failure'' (Some ''connection refused'') demo_self],
        etl_runs :=
         [\<lparr>run_id = ''run-1'', run_source = ''csv'', run_status = ''failure'',
           run_records_processed = 3, duration_seconds = 40, run_started_at = 10,
           completed_at = 50, run_error_message = Some ''connection refused''\<rparr>]\<rparr>,
      [Starting 1, Extracting, Failed 1 ''connection refused'', Retrying 2,
       Starting 2, Extracting, Failed 2 ''connection refused'', Retrying 4,
       Starting 3, Extracting, Failed 3 ''connection refused''])"
  by (simp add: run_eval extract_fails_def empty_db_def demo_self_def)

section \<open>Properties of the orchestrator\<close>

lemma run_parallel_dom:
  "dom (fst (run_parallel etl_sources schedule results w)) = dom results \<union> set schedule"
proof (induction schedule arbitrary: results w)
  case Nil
  then show ?case by simp
next
  case (Cons src rest)
  obtain r db lg where s: "run_single_source etl_sources src w = (r, db, lg)"
    by (metis prod_cases3)
  show ?case
    by (cases r) (auto simp: s Cons.IH)
qed

lemma run_all_parallel_total:
  "\<exists>results w'. run_all_sources etl_sources True schedule w = (Inr results, w')
      \<and> dom results = set schedule"
proof -
  obtain results w' where r: "run_parallel etl_sources schedule Map.empty w = (results, w')"
    by (cases "run_parallel etl_sources schedule Map.empty w")
  then have "dom results = set schedule"
    using run_parallel_dom[of etl_sources schedule Map.empty w] by simp
  with r show ?thesis
    by (simp add: run_all_sources_def)
qed

lemmas run_all_eval = run_eval load_normalized_def new_checkpoint_def touch_checkpoint_def

lemma isolation_a_then_b:
  "(case run_all_sources [(''a'', Inr job_a), (''b'', Inr job_b)] True [''a'', ''b''] (empty_db, []) of
      (Inr results, db, lg) \<Rightarrow>
        results ''a'' = Some False \<and> results ''b'' = Some True
        \<and> map_option cp_status (find (\<lambda>c. cp_source c = ''b'') (etl_checkpoints db))
            = Some ''success''
    | (Inl e, w) \<Rightarrow> False)"
  by (simp add: run_all_sources_def run_single_source_def job_a_def job_b_def
      extract_fails_def always_succeeds_def empty_db_def run_all_eval)

lemma isolation_b_then_a:
  "(case run_all_sources [(''a'', Inr job_a), (''b'', Inr job_b)] True [''b'', ''a''] (empty_db, []) of
      (Inr results, db, lg) \<Rightarrow>
        results ''a'' = Some False \<and> results ''b'' = Some True
        \<and> map_option cp_status (find (\<lambda>c. cp_source c = ''b'') (etl_checkpoints db))
            = Some ''success''
    | (Inl e, w) \<Rightarrow> False)"
  by (simp add: run_all_sources_def run_single_source_def job_a_def job_b_def
      extract_fails_def always_succeeds_def empty_db_def run_all_eval)

lemma isolation_sequential:
  "(case run_all_sources [(''a'', Inr job_a), (''b'', Inr job_b)] False [] (empty_db, []) of
      (Inr results, db, lg) \<Rightarrow>
        results ''a'' = Some False \<and> results ''b'' = Some True
        \<and> map_option cp_status (find (\<lambda>c. cp_source c = ''b'') (etl_checkpoints db))
            = Some ''success''
    | (Inl e, w) \<Rightarrow> False)"
  by (simp add: run_all_sources_def run_single_source_def job_a_def job_b_def
      extract_fails_def always_succeeds_def empty_db_def run_all_eval)

text \<open>
  C7. The claim holds of the parallel branch (lemmas \<open>run_all_parallel_total\<close>,
  \<open>run_parallel_records_false\<close>, \<open>isolation_a_then_b\<close>, \<open>isolation_b_then_a\<close>) and, in
  the sequential branch, as long as no pipeline constructor raises and the default
  back-off delays are accepted (\<open>run_sequential_total\<close>, \<open>isolation_sequential\<close>). In the sequential branch an
  exception that leaves \<^verbatim>\<open>run_single_source\<close> is not caught: it leaves
  \<^verbatim>\<open>run_all_sources\<close>, no mapping is returned and the remaining sources are not run.
\<close>

theorem sequential_run_propagates_exception:
  "run_all_sources [(''a'', Inl ''constructor failed''), (''b'', Inr job_b)] False [''a'', ''b'']
     (empty_db, []) = (Inl ''constructor failed'', empty_db, [])"
  by (simp add: run_all_sources_def run_single_source_def)

lemma parallel_run_records_false:
  "(case run_all_sources [(''a'', Inl ''constructor failed''), (''b'', Inr job_b)] True [''a'', ''b'']
     (empty_db, []) of
      (Inr results, db, lg) \<Rightarrow>
        results ''a'' = Some False \<and> results ''b'' = Some True
        \<and> map_option cp_status (find (\<lambda>c. cp_source c = ''b'') (etl_checkpoints db))
            = Some ''success''
    | (Inl e, w) \<Rightarrow> False)"
  by (simp add: run_all_sources_def run_single_source_def job_b_def
      always_succeeds_def empty_db_def run_all_eval)


lemma run_parallel_records_false:
  "run_single_source etl_sources src w = (Inl e, w') \<Longrightarrow>
     fst (run_parallel etl_sources [src] results w) src = Some False"
  by (cases w') simp

lemma run_single_source_total:
  assumes "\<forall>c\<in>snd ` set etl_sources. \<exists>etl. c = Inr etl \<and> 4 \<le> sleep_limit (job_env etl)"
  shows "\<exists>b w'. run_single_source etl_sources src w = (Inr b, w')"
proof -
  obtain db lg where w: "w = (db, lg)"
    by (cases w)
  show ?thesis
  proof (cases "map_of etl_sources src")
    case None
    then have "run_single_source etl_sources src w = (Inr False, db, lg @ [UnknownSource src])"
      by (simp add: run_single_source_def w)
    then show ?thesis by blast
  next
    case (Some c)
    then have "c \<in> snd ` set etl_sources"
      by (metis map_of_SomeD snd_conv image_eqI)
    with assms obtain etl where c: "c = Inr etl" and "4 \<le> sleep_limit (job_env etl)"
      by blast
    then have "delays_accepted (job_env etl) 2 3"
      by (simp add: default_delays)
    from run_no_raise[OF this, of "(job_self etl, db, lg)"]
    obtain b self' db' lg' where
      "run (job_env etl) 3 2 (job_self etl, db, lg) = (Inr b, self', db', lg')"
      by (metis prod_cases3)
    with Some c have "run_single_source etl_sources src w = (Inr b, db', lg')"
      by (simp add: run_single_source_def w)
    then show ?thesis by blast
  qed
qed

lemma run_sequential_total:
  assumes "\<forall>c\<in>snd ` set etl_sources. \<exists>etl. c = Inr etl \<and> 4 \<le> sleep_limit (job_env etl)"
  shows "\<exists>res w'. run_sequential etl_sources srcs results w = (Inr res, w')
           \<and> dom res = dom results \<union> set srcs"
proof (induction srcs arbitrary: results w)
  case Nil
  then show ?case by simp
next
  case (Cons src rest)
  from run_single_source_total[OF assms, of src w] obtain b w1 where
    s: "run_single_source etl_sources src w = (Inr b, w1)"
    by blast
  from Cons.IH[of "results(src \<mapsto> b)" w1] obtain res w' where
    "run_sequential etl_sources rest (results(src \<mapsto> b)) w1 = (Inr res, w')"
    "dom res = dom (results(src \<mapsto> b)) \<union> set rest"
    by blast
  with s show ?case
    by auto
qed

end
